theory Spec2Isabelle
  imports Complex_Main "HOL-Library.Sublist"
begin

section \<open>JavaScript values and strings\<close>

text \<open>
  The agents are JavaScript: a value has no static type, a missing property reads as
  \<open>undefined\<close>, and calling a method that a value does not have throws a
  \<open>TypeError\<close>. The values the code can be handed (request bodies, query
  parameters, parsed JSON replies) are modelled by \<open>jsval\<close>; an object is the list
  of its own properties in insertion order. Numbers are modelled by exact rationals
  (the scores of the code are sums and quotients of the decimal constants 0.15, 0.2,
  0.3, 0.8, 0.9, 0.95 and 1.0; the rounding of the binary floating-point arithmetic is
  left out), with \<open>JNaN\<close> for the result of arithmetic on a non-number.
\<close>

datatype jsval =
    JUndefined
  | JNull
  | JBool bool
  | JNum rat
  | JNaN
  | JStr string
  | JArr "jsval list"
  | JObj "(string \<times> jsval) list"

datatype js_error = TypeError string | Error string | SyntaxError string

text \<open>
  A character is read as the code unit with the same number (the range U+0000 to
  U+00FF). \<open>String.prototype.toLowerCase\<close> maps A to Z and the upper-case letters of
  U+00C0 to U+00DE (the multiplication sign U+00D7 apart) to the letter 32 places up, and
  leaves every other code unit of that range alone.
\<close>

definition lower_char :: "char \<Rightarrow> char" where
  "lower_char c =
     (let n = (of_char c :: nat)
      in if (65 \<le> n \<and> n \<le> 90) \<or> (192 \<le> n \<and> n \<le> 222 \<and> n \<noteq> 215)
         then char_of (n + 32) else c)"

definition toLowerCase :: "string \<Rightarrow> string" where
  "toLowerCase s = map lower_char s"

text \<open>
  The class \<open>\s\<close> of a regular expression, on the same range: tab, line feed, vertical
  tab, form feed, carriage return, space and the no-break space U+00A0.
\<close>

definition is_ws :: "char \<Rightarrow> bool" where
  "is_ws c = ((of_char c :: nat) \<in> {9, 10, 11, 12, 13, 32, 160})"

text \<open>
  \<open>s.split(/\s+/)\<close>: the pieces of \<open>s\<close> between maximal runs of white space. A run at
  the start or at the end of \<open>s\<close> leaves an empty piece there, and the empty string
  splits into one empty piece. \<open>split_from inrun s\<close> returns the pieces of \<open>s\<close>, the first
  of them continuing the piece that is open when \<open>s\<close> starts; \<open>inrun\<close> says that the
  character before \<open>s\<close> belonged to a run of white space, which further white space
  extends.
\<close>

fun split_from :: "bool \<Rightarrow> string \<Rightarrow> string list" where
  "split_from inrun [] = [[]]"
| "split_from inrun (c # cs) =
     (if is_ws c then (if inrun then split_from True cs else [] # split_from True cs)
      else (case split_from False cs of
              [] \<Rightarrow> [[c]]
            | w # ws \<Rightarrow> (c # w) # ws))"

definition split_ws :: "string \<Rightarrow> string list" where
  "split_ws s = split_from False s"

text \<open>\<open>word.includes(keyword)\<close>: \<open>keyword\<close> occurs in \<open>word\<close> as a contiguous piece.\<close>

fun str_includes :: "string \<Rightarrow> string \<Rightarrow> bool" where
  "str_includes [] keyword = (keyword = [])"
| "str_includes (c # cs) keyword = (prefix keyword (c # cs) \<or> str_includes cs keyword)"

text \<open>
  Assignment \<open>obj[key] = value\<close> to an object kept as the list of its properties: an
  existing property keeps its place and takes the new value, a new property goes to the
  end. (The keys of the code are category names, none of them an array index, so
  \<open>Object.entries\<close> and \<open>Object.values\<close> enumerate in this order.)
\<close>

fun assign :: "(string \<times> 'v) list \<Rightarrow> string \<Rightarrow> 'v \<Rightarrow> (string \<times> 'v) list" where
  "assign [] key v = [(key, v)]"
| "assign (p # ps) key v = (if fst p = key then (key, v) # ps else p # assign ps key v)"

section \<open>The analysis record of an agent\<close>

text \<open>
  One entry of \<open>analysis.categories\<close>: \<open>{score, matches, count}\<close>, with a
  \<open>correction\<close> in the entries that the factual-error check of the misinformation agent
  writes.
\<close>

record category_match =
  score :: rat
  matches :: "string list"
  count :: nat
  correction :: "string option"

text \<open>
  The object an agent returns. The four agents build the same object under different
  property names: \<open>flagged\<close> is \<open>isToxic\<close>, \<open>hasBias\<close>, \<open>hasMisinformation\<close> or
  \<open>hasCoordination\<close>; \<open>aggregateScore\<close> is \<open>toxicityScore\<close>, \<open>biasScore\<close>,
  \<open>misinformationScore\<close> or \<open>coordinationScore\<close>; \<open>flaggedTokens\<close> is
  \<open>flaggedWords\<close> (toxicity) or \<open>flaggedPhrases\<close>. The object of the \<open>catch\<close> blocks has
  an \<open>error\<close> message and no \<open>categories\<close>, \<open>flaggedTokens\<close>, \<open>recommendations\<close> and
  \<open>model\<close>: there \<open>error\<close> is \<open>Some\<close> message, the three lists are empty and the model
  is \<open>None\<close>. \<open>timestamp\<close> is the value of \<open>new Date().toISOString()\<close>, a parameter
  of the functions that build a record.
\<close>

record analysis =
  sourceText :: jsval
  error :: "string option"
  flagged :: bool
  aggregateScore :: rat
  severity :: string
  categories :: "(string \<times> category_match) list"
  flaggedTokens :: "string list"
  recommendations :: "string list"
  model :: "string option"
  timestamp :: string

section \<open>The pattern scan shared by the four fallback analyses\<close>

text \<open>
  The inner loop over the words of the text, for one category (toxicityAgent.js lines
  107 to 112, and the same lines of the three other agents with their own increment):
  a word that contains some keyword of the category is pushed on \<open>matches\<close> and adds
  the increment to \<open>categoryScore\<close>. The state of the loop is the pair of the two
  variables.
\<close>

fun scanWords :: "rat \<Rightarrow> string list \<Rightarrow> string list \<Rightarrow> string list \<times> rat \<Rightarrow> string list \<times> rat" where
  "scanWords inc keywords [] st = st"
| "scanWords inc keywords (word # ws) st =
     scanWords inc keywords ws
       (if list_ex (\<lambda>keyword. str_includes word keyword) keywords
        then (fst st @ [word], snd st + inc)
        else st)"

text \<open>
  The outer loop over \<open>Object.entries(this.fallbackPatterns)\<close> (lines 103 to 122): a
  category with at least one match gets its entry in \<open>analysis.categories\<close>, and its
  matches are appended to the flagged tokens.
\<close>

fun scanPatterns :: "rat \<Rightarrow> (string \<times> string list) list \<Rightarrow> string list \<Rightarrow> analysis \<Rightarrow> analysis" where
  "scanPatterns inc [] ws a = a"
| "scanPatterns inc ((category, keywords) # ps) ws a =
     scanPatterns inc ps ws
       (let st = scanWords inc keywords ws ([], 0)
        in if length (fst st) > 0
           then a\<lparr>categories :=
                    assign (categories a) category
                      \<lparr>score = min (snd st) 1, matches = fst st, count = length (fst st),
                       correction = None\<rparr>,
                  flaggedTokens := flaggedTokens a @ fst st\<rparr>
           else a)"

text \<open>
  The overall score (lines 125 to 128): the mean of the scores of the entries of
  \<open>analysis.categories\<close>, capped at 1, and 0 when there is no entry.
\<close>

definition overallScore :: "analysis \<Rightarrow> analysis" where
  "overallScore a =
     (let categoryScores = map (\<lambda>cat. score (snd cat)) (categories a)
      in a\<lparr>aggregateScore :=
             (if length categoryScores > 0
              then min (foldl (\<lambda>sum sc. sum + sc) 0 categoryScores
                          / of_nat (length categoryScores)) 1
              else 0)\<rparr>)"

text \<open>
  The severity level (lines 130 to 143): an \<open>if\<close> chain with no final \<open>else\<close>, so a
  score under 0.2 leaves \<open>severity\<close> and the flag as they are.
\<close>

definition determineSeverity :: "analysis \<Rightarrow> analysis" where
  "determineSeverity a =
     (if aggregateScore a \<ge> 8 / 10 then a\<lparr>severity := ''critical'', flagged := True\<rparr>
      else if aggregateScore a \<ge> 6 / 10 then a\<lparr>severity := ''high'', flagged := True\<rparr>
      else if aggregateScore a \<ge> 4 / 10 then a\<lparr>severity := ''medium'', flagged := True\<rparr>
      else if aggregateScore a \<ge> 2 / 10 then a\<lparr>severity := ''low'', flagged := True\<rparr>
      else a)"

text \<open>The object literal every fallback analysis starts from (lines 90 to 100).\<close>

definition initialAnalysis :: "string \<Rightarrow> jsval \<Rightarrow> analysis" where
  "initialAnalysis now text =
     \<lparr>sourceText = text, error = None, flagged = False, aggregateScore = 0,
      severity = ''none'', categories = [], flaggedTokens = [], recommendations = [],
      model = Some ''fallback-pattern-matcher'', timestamp = now\<rparr>"

text \<open>The object literal of the \<open>catch\<close> blocks (lines 156 to 163 and 225 to 232).\<close>

definition errorAnalysis :: "string \<Rightarrow> jsval \<Rightarrow> string \<Rightarrow> analysis" where
  "errorAnalysis now text msg =
     \<lparr>sourceText = text, error = Some msg, flagged = False, aggregateScore = 0,
      severity = ''error'', categories = [], flaggedTokens = [], recommendations = [],
      model = None, timestamp = now\<rparr>"

text \<open>
  \<open>text.toLowerCase()\<close>: defined on strings. On \<open>undefined\<close> and \<open>null\<close> the property
  read throws, on every other value the property is not a function and the call throws.
\<close>

definition callToLowerCase :: "jsval \<Rightarrow> js_error + string" where
  "callToLowerCase v =
     (case v of
        JStr s \<Rightarrow> Inr (toLowerCase s)
      | JUndefined \<Rightarrow> Inl (TypeError ''Cannot read properties of undefined'')
      | JNull \<Rightarrow> Inl (TypeError ''Cannot read properties of null'')
      | _ \<Rightarrow> Inl (TypeError ''text.toLowerCase is not a function''))"

section \<open>The toxicity agent (agents/toxicityAgent.js)\<close>

definition ToxicityAgent_fallbackPatterns :: "(string \<times> string list) list" where
  "ToxicityAgent_fallbackPatterns =
     [(''insults'', [''stupid'', ''idiot'', ''dumb'', ''fool'', ''moron'', ''imbecile'',
                     ''retard'', ''cretin'']),
      (''hate_speech'', [''hate'', ''racist'', ''bigot'', ''nazi'', ''supremacist'',
                         ''white power'', ''black power'']),
      (''violence'', [''kill'', ''murder'', ''attack'', ''violence'', ''weapon'', ''bomb'',
                      ''shoot'', ''stab'']),
      (''profanity'', [''fuck'', ''shit'', ''damn'', ''hell'', ''bitch'', ''ass'', ''cunt'',
                       ''dick'', ''pussy'']),
      (''threats'', [''threaten'', ''hurt you'', ''kill you'', ''attack you'',
                     ''destroy you'']),
      (''harassment'', [''harass'', ''stalk'', ''bully'', ''intimidate'', ''terrorize''])]"

text \<open>The body of the \<open>try\<close> block of \<open>fallbackAnalysis\<close> (lines 87 to 153).\<close>

definition ToxicityAgent_fallbackBody :: "string \<Rightarrow> jsval \<Rightarrow> js_error + analysis" where
  "ToxicityAgent_fallbackBody now text =
     (case callToLowerCase text of
        Inl e \<Rightarrow> Inl e
      | Inr lowerText \<Rightarrow>
          (let ws = split_ws lowerText;
               a = determineSeverity (overallScore
                     (scanPatterns (3 / 10) ToxicityAgent_fallbackPatterns ws
                        (initialAnalysis now text)))
           in Inr (if flagged a
                   then (let a1 = a\<lparr>recommendations := recommendations a
                                        @ [''Toxic content detected. Consider moderation.'']\<rparr>
                         in if map_of (categories a1) ''insults'' \<noteq> None
                            then a1\<lparr>recommendations := recommendations a1
                                       @ [''Personal insults detected. Review for community guidelines.'']\<rparr>
                            else a1)
                   else a)))"

definition ToxicityAgent_fallbackAnalysis :: "string \<Rightarrow> jsval \<Rightarrow> analysis" where
  "ToxicityAgent_fallbackAnalysis now text =
     (case ToxicityAgent_fallbackBody now text of
        Inr a \<Rightarrow> a
      | Inl e \<Rightarrow> errorAnalysis now text ''Both API and fallback analysis failed'')"

section \<open>The bias agent (agents/biasAgent.js)\<close>

definition BiasAgent_fallbackPatterns :: "(string \<times> string list) list" where
  "BiasAgent_fallbackPatterns =
     [(''gender_bias'', [''women can't'', ''men are better'', ''female driver'',
                         ''male nurse'']),
      (''racial_bias'', [''race'', ''ethnicity'', ''minority'', ''stereotype'',
                         ''prejudice'']),
      (''age_bias'', [''old people'', ''young people'', ''millennial'', ''boomer'']),
      (''religious_bias'', [''religion'', ''faith'', ''atheist'', ''believer'',
                            ''heathen'']),
      (''socioeconomic_bias'', [''poor'', ''rich'', ''wealthy'', ''poverty'',
                                ''privilege''])]"

definition BiasAgent_fallbackBody :: "string \<Rightarrow> jsval \<Rightarrow> js_error + analysis" where
  "BiasAgent_fallbackBody now text =
     (case callToLowerCase text of
        Inl e \<Rightarrow> Inl e
      | Inr lowerText \<Rightarrow>
          (let ws = split_ws lowerText;
               a = determineSeverity (overallScore
                     (scanPatterns (2 / 10) BiasAgent_fallbackPatterns ws
                        (initialAnalysis now text)))
           in Inr (if flagged a
                   then a\<lparr>recommendations := recommendations a
                            @ [''Bias detected. Consider using more inclusive language.'']\<rparr>
                   else a)))"

definition BiasAgent_fallbackAnalysis :: "string \<Rightarrow> jsval \<Rightarrow> analysis" where
  "BiasAgent_fallbackAnalysis now text =
     (case BiasAgent_fallbackBody now text of
        Inr a \<Rightarrow> a
      | Inl e \<Rightarrow> errorAnalysis now text ''Both API and fallback analysis failed'')"

section \<open>The coordination agent (agents/coordinationAgent.js)\<close>

definition CoordinationAgent_fallbackPatterns :: "(string \<times> string list) list" where
  "CoordinationAgent_fallbackPatterns =
     [(''bot_like_behavior'', [''automated'', ''bot'', ''script'', ''program'',
                               ''algorithm'']),
      (''coordinated_campaigns'', [''campaign'', ''movement'', ''initiative'', ''drive'',
                                   ''push'']),
      (''manipulation_tactics'', [''astroturfing'', ''brigading'', ''vote manipulation'']),
      (''amplification'', [''share this'', ''retweet'', ''repost'', ''forward'', ''viral'']),
      (''echo_chambers'', [''echo chamber'', ''bubble'', ''filter'', ''algorithm''])]"

definition CoordinationAgent_fallbackBody :: "string \<Rightarrow> jsval \<Rightarrow> js_error + analysis" where
  "CoordinationAgent_fallbackBody now text =
     (case callToLowerCase text of
        Inl e \<Rightarrow> Inl e
      | Inr lowerText \<Rightarrow>
          (let ws = split_ws lowerText;
               a = determineSeverity (overallScore
                     (scanPatterns (15 / 100) CoordinationAgent_fallbackPatterns ws
                        (initialAnalysis now text)))
           in Inr (if flagged a
                   then a\<lparr>recommendations := recommendations a
                            @ [''Coordinated behavior detected. Monitor for inauthentic activity.'']\<rparr>
                   else a)))"

definition CoordinationAgent_fallbackAnalysis :: "string \<Rightarrow> jsval \<Rightarrow> analysis" where
  "CoordinationAgent_fallbackAnalysis now text =
     (case CoordinationAgent_fallbackBody now text of
        Inr a \<Rightarrow> a
      | Inl e \<Rightarrow> errorAnalysis now text ''Both API and fallback analysis failed'')"

section \<open>The misinformation agent (agents/misinformationAgent.js)\<close>

definition MisinformationAgent_fallbackPatterns :: "(string \<times> string list) list" where
  "MisinformationAgent_fallbackPatterns =
     [(''conspiracy_theories'', [''conspiracy'', ''cover up'', ''secret agenda'',
                                 ''hidden truth'']),
      (''pseudoscience'', [''quantum healing'', ''energy crystals'', ''alternative facts'']),
      (''clickbait'', [''you won't believe'', ''shocking truth'', ''number one secret'']),
      (''sensationalism'', [''breaking news'', ''urgent warning'', ''must see'']),
      (''unverified_claims'', [''studies show'', ''research proves'', ''experts agree''])]"

text \<open>
  One entry of \<open>this.factualErrors\<close>: the corrected statement and the score bound to the
  false one (the property \<open>score\<close> of the source; the name is taken by the category
  entry).
\<close>

record factual_error =
  correct :: string
  errorScore :: rat

definition MisinformationAgent_factualErrors ::
    "(string \<times> (string \<times> factual_error) list) list" where
  "MisinformationAgent_factualErrors =
     [(''geography'',
         [(''paris is in spain'', \<lparr>correct = ''Paris is in France'', errorScore = 9 / 10\<rparr>),
          (''london is in france'',
             \<lparr>correct = ''London is in England/UK'', errorScore = 9 / 10\<rparr>),
          (''tokyo is in china'', \<lparr>correct = ''Tokyo is in Japan'', errorScore = 9 / 10\<rparr>),
          (''moscow is in ukraine'',
             \<lparr>correct = ''Moscow is in Russia'', errorScore = 9 / 10\<rparr>),
          (''berlin is in austria'',
             \<lparr>correct = ''Berlin is in Germany'', errorScore = 9 / 10\<rparr>)]),
      (''science'',
         [(''earth is flat'', \<lparr>correct = ''Earth is spherical'', errorScore = 95 / 100\<rparr>),
          (''vaccines cause autism'',
             \<lparr>correct = ''No scientific evidence supports this claim'',
              errorScore = 9 / 10\<rparr>),
          (''climate change is a hoax'',
             \<lparr>correct = ''Climate change is supported by scientific consensus'',
              errorScore = 9 / 10\<rparr>)]),
      (''history'',
         [(''world war 2 ended in 1944'',
             \<lparr>correct = ''WW2 ended in 1945'', errorScore = 9 / 10\<rparr>),
          (''nixon was president in 1960'',
             \<lparr>correct = ''Nixon was president 1969-1974'', errorScore = 8 / 10\<rparr>)])]"

text \<open>
  The factual-error check (lines 449 to 466). The state of the two nested loops is the
  variable \<open>factualErrorFound\<close> and the analysis object. The inner loop runs over the
  error patterns of one category.
\<close>

fun checkErrors ::
    "string \<Rightarrow> string \<Rightarrow> (string \<times> factual_error) list \<Rightarrow> bool \<times> analysis \<Rightarrow> bool \<times> analysis" where
  "checkErrors lowerText category [] st = st"
| "checkErrors lowerText category ((errorPattern, corr) # es) st =
     checkErrors lowerText category es
       (if str_includes lowerText errorPattern
        then (True,
              (snd st)\<lparr>flagged := True,
                       aggregateScore := max (aggregateScore (snd st)) (errorScore corr),
                       categories :=
                         assign (categories (snd st)) category
                           \<lparr>score = errorScore corr, matches = [errorPattern],
                            count = 1, correction = Some (correct corr)\<rparr>,
                       flaggedTokens := flaggedTokens (snd st) @ [errorPattern],
                       recommendations := recommendations (snd st)
                         @ [''Factual error detected: '' @ correct corr]\<rparr>)
        else st)"

fun checkFactualErrors ::
    "string \<Rightarrow> (string \<times> (string \<times> factual_error) list) list \<Rightarrow> bool \<times> analysis
     \<Rightarrow> bool \<times> analysis" where
  "checkFactualErrors lowerText [] st = st"
| "checkFactualErrors lowerText ((category, errors) # cs) st =
     checkFactualErrors lowerText cs (checkErrors lowerText category errors st)"

definition MisinformationAgent_fallbackBody :: "string \<Rightarrow> jsval \<Rightarrow> js_error + analysis" where
  "MisinformationAgent_fallbackBody now text =
     (case callToLowerCase text of
        Inl e \<Rightarrow> Inl e
      | Inr lowerText \<Rightarrow>
          (let ws = split_ws lowerText;
               st = checkFactualErrors lowerText MisinformationAgent_factualErrors
                      (False, initialAnalysis now text);
               factualErrorFound = fst st;
               a = determineSeverity (overallScore
                     (scanPatterns (2 / 10) MisinformationAgent_fallbackPatterns ws (snd st)))
           in Inr (if flagged a \<and> \<not> factualErrorFound
                   then a\<lparr>recommendations := recommendations a
                            @ [''Misinformation detected. Verify claims with reliable sources.'']\<rparr>
                   else a)))"

definition MisinformationAgent_fallbackAnalysis :: "string \<Rightarrow> jsval \<Rightarrow> analysis" where
  "MisinformationAgent_fallbackAnalysis now text =
     (case MisinformationAgent_fallbackBody now text of
        Inr a \<Rightarrow> a
      | Inl e \<Rightarrow> errorAnalysis now text ''Both API and fallback analysis failed'')"

section \<open>The model-backed toxicity agent (agents/toxicityAgentAI.js)\<close>

definition getSeverityLevel :: "rat \<Rightarrow> string" where
  "getSeverityLevel sc =
     (if sc \<ge> 8 / 10 then ''critical''
      else if sc \<ge> 6 / 10 then ''high''
      else if sc \<ge> 4 / 10 then ''medium''
      else if sc \<ge> 2 / 10 then ''low''
      else ''none'')"

section \<open>The remote call and the reply parser of an agent\<close>

text \<open>
  Reading a property: \<open>undefined\<close> and \<open>null\<close> throw, an object gives the value of
  its property or \<open>undefined\<close>. The property names the code reads (\<open>choices\<close>,
  \<open>message\<close>, \<open>content\<close>, \<open>score\<close>, \<open>flagged\<close>, \<open>id\<close> and the fields of a
  reply) are not properties of a boolean, a number, a string or an array, which give
  \<open>undefined\<close>.
\<close>

definition getProp :: "jsval \<Rightarrow> string \<Rightarrow> js_error + jsval" where
  "getProp v name =
     (case v of
        JUndefined \<Rightarrow> Inl (TypeError (''Cannot read properties of undefined, reading '' @ name))
      | JNull \<Rightarrow> Inl (TypeError (''Cannot read properties of null, reading '' @ name))
      | JObj ps \<Rightarrow> Inr (case map_of ps name of None \<Rightarrow> JUndefined | Some x \<Rightarrow> x)
      | _ \<Rightarrow> Inr JUndefined)"

text \<open>The element read \<open>v[0]\<close>.\<close>

definition getFirst :: "jsval \<Rightarrow> js_error + jsval" where
  "getFirst v =
     (case v of
        JUndefined \<Rightarrow> Inl (TypeError ''Cannot read properties of undefined, reading 0'')
      | JNull \<Rightarrow> Inl (TypeError ''Cannot read properties of null, reading 0'')
      | JArr xs \<Rightarrow> Inr (case xs of [] \<Rightarrow> JUndefined | x # _ \<Rightarrow> x)
      | JStr s \<Rightarrow> Inr (case s of [] \<Rightarrow> JUndefined | c # _ \<Rightarrow> JStr [c])
      | JObj ps \<Rightarrow> Inr (case map_of ps ''0'' of None \<Rightarrow> JUndefined | Some x \<Rightarrow> x)
      | _ \<Rightarrow> Inr JUndefined)"

definition truthy :: "jsval \<Rightarrow> bool" where
  "truthy v =
     (case v of
        JUndefined \<Rightarrow> False
      | JNull \<Rightarrow> False
      | JBool b \<Rightarrow> b
      | JNum q \<Rightarrow> q \<noteq> 0
      | JNaN \<Rightarrow> False
      | JStr s \<Rightarrow> s \<noteq> []
      | _ \<Rightarrow> True)"

text \<open>The operator \<open>a || b\<close> on two values.\<close>

definition js_or :: "jsval \<Rightarrow> jsval \<Rightarrow> jsval" where
  "js_or a b = (if truthy a then a else b)"

text \<open>Sequencing of steps that can throw: the first exception ends the block.\<close>

definition bindE :: "js_error + 'a \<Rightarrow> ('a \<Rightarrow> js_error + 'b) \<Rightarrow> js_error + 'b" where
  "bindE m f = (case m of Inl e \<Rightarrow> Inl e | Inr x \<Rightarrow> f x)"

text \<open>
  The network as the agent sees it: the outcomes of the requests it will issue, in
  order. \<open>fetch\<close> takes the first outcome and leaves the others; with none left the
  request is rejected. A response carries its status and what \<open>response.json()\<close>
  resolves to.
\<close>

datatype json_body = JsonRejected | JsonValue jsval

datatype fetch_outcome = FetchRejected | FetchResponse nat json_body

definition fetch :: "fetch_outcome list \<Rightarrow> fetch_outcome \<times> fetch_outcome list" where
  "fetch net = (case net of [] \<Rightarrow> (FetchRejected, []) | r # rs \<Rightarrow> (r, rs))"

definition response_ok :: "nat \<Rightarrow> bool" where
  "response_ok status = (200 \<le> status \<and> status \<le> 299)"

text \<open>
  Lines 60 to 65 of \<open>analyze\<close>: the text of the model's reply, or the exception that the
  \<open>catch\<close> block of \<open>analyze\<close> receives.
\<close>

definition replyContent :: "fetch_outcome \<Rightarrow> js_error + jsval" where
  "replyContent outcome =
     (case outcome of
        FetchRejected \<Rightarrow> Inl (TypeError ''fetch failed'')
      | FetchResponse status body \<Rightarrow>
          (if \<not> response_ok status then Inl (Error ''Cerebras API error'')
           else (case body of
                   JsonRejected \<Rightarrow> Inl (SyntaxError ''Unexpected token'')
                 | JsonValue data \<Rightarrow>
                     bindE (getProp data ''choices'') (\<lambda>choices.
                     bindE (getFirst choices) (\<lambda>choice.
                     bindE (getProp choice ''message'') (\<lambda>message.
                       getProp message ''content''))))))"

text \<open>
  \<open>aiResponse.match(/\{[\s\S]*\}/)\<close>: the piece from the first opening brace to the
  last closing brace after it, when there is one.
\<close>

definition matchJson :: "string \<Rightarrow> string option" where
  "matchJson s =
     (let fromBrace = dropWhile (\<lambda>c. c \<noteq> CHR ''{'') s;
          m = rev (dropWhile (\<lambda>c. c \<noteq> CHR ''}'') (rev fromBrace))
      in if m = [] then None else Some m)"

text \<open>
  What an agent returns: the record of a fallback analysis or of a \<open>catch\<close> block, or
  the object that \<open>parseAIResponse\<close> builds from the fields of the model's reply, whose
  values are whatever the reply holds.
\<close>

datatype agent_output = LocalRecord analysis | RemoteRecord "(string \<times> jsval) list"

text \<open>The property names that differ between the four agents.\<close>

record agent_names =
  flagName :: string
  scoreName :: string
  tokensName :: string

definition ToxicityAgent_names :: agent_names where
  "ToxicityAgent_names =
     \<lparr>flagName = ''isToxic'', scoreName = ''toxicityScore'', tokensName = ''flaggedWords''\<rparr>"

definition BiasAgent_names :: agent_names where
  "BiasAgent_names =
     \<lparr>flagName = ''hasBias'', scoreName = ''biasScore'', tokensName = ''flaggedPhrases''\<rparr>"

definition MisinformationAgent_names :: agent_names where
  "MisinformationAgent_names =
     \<lparr>flagName = ''hasMisinformation'', scoreName = ''misinformationScore'',
      tokensName = ''flaggedPhrases''\<rparr>"

definition CoordinationAgent_names :: agent_names where
  "CoordinationAgent_names =
     \<lparr>flagName = ''hasCoordination'', scoreName = ''coordinationScore'',
      tokensName = ''flaggedPhrases''\<rparr>"

text \<open>
  \<open>parseAIResponse\<close> (toxicityAgent.js lines 202 to 234, and the same function of the
  three other agents under their property names). \<open>JSON.parse\<close> is a parameter:
  \<open>None\<close> is its \<open>SyntaxError\<close>.
\<close>

definition parseBody ::
    "agent_names \<Rightarrow> (string \<Rightarrow> jsval option) \<Rightarrow> string \<Rightarrow> jsval \<Rightarrow> jsval
     \<Rightarrow> js_error + (string \<times> jsval) list" where
  "parseBody names jsonParse now aiResponse originalText =
     (case aiResponse of
        JStr s \<Rightarrow>
          (case matchJson s of
             None \<Rightarrow> Inl (Error ''No JSON found in AI response'')
           | Some jsonMatch \<Rightarrow>
               (case jsonParse jsonMatch of
                  None \<Rightarrow> Inl (SyntaxError ''Unexpected token'')
                | Some parsed \<Rightarrow>
                    bindE (getProp parsed (flagName names)) (\<lambda>vFlag.
                    bindE (getProp parsed (scoreName names)) (\<lambda>vScore.
                    bindE (getProp parsed ''severity'') (\<lambda>vSeverity.
                    bindE (getProp parsed ''categories'') (\<lambda>vCategories.
                    bindE (getProp parsed (tokensName names)) (\<lambda>vTokens.
                    bindE (getProp parsed ''recommendations'') (\<lambda>vRecs.
                      Inr [(''text'', originalText),
                           (flagName names, js_or vFlag (JBool False)),
                           (scoreName names, js_or vScore (JNum 0)),
                           (''severity'', js_or vSeverity (JStr ''none'')),
                           (''categories'', js_or vCategories (JArr [])),
                           (tokensName names, js_or vTokens (JArr [])),
                           (''recommendations'', js_or vRecs (JArr [])),
                           (''model'', JStr ''Qwen-3-32B''),
                           (''timestamp'', JStr now)]))))))))
      | JUndefined \<Rightarrow> Inl (TypeError ''Cannot read properties of undefined, reading match'')
      | JNull \<Rightarrow> Inl (TypeError ''Cannot read properties of null, reading match'')
      | _ \<Rightarrow> Inl (TypeError ''aiResponse.match is not a function''))"

definition parseAIResponse ::
    "agent_names \<Rightarrow> (string \<Rightarrow> jsval option) \<Rightarrow> string \<Rightarrow> jsval \<Rightarrow> jsval \<Rightarrow> agent_output" where
  "parseAIResponse names jsonParse now aiResponse originalText =
     (case parseBody names jsonParse now aiResponse originalText of
        Inr props \<Rightarrow> RemoteRecord props
      | Inl e \<Rightarrow> LocalRecord (errorAnalysis now originalText ''Failed to parse AI response''))"

text \<open>
  \<open>analyze\<close> (toxicityAgent.js lines 26 to 78, and the same method of the three other
  agents). \<open>apiKey\<close> is \<open>process.env.CEREBRAS_API_KEY\<close>, \<open>None\<close> when the variable is
  not set; an empty key is falsy too. The result comes with the outcomes the network
  still holds, so the number of requests issued can be read off. The prompt built from
  the text goes into the request only, and building it cannot throw.
\<close>

definition agent_analyze ::
    "(string \<Rightarrow> jsval \<Rightarrow> analysis) \<Rightarrow> agent_names \<Rightarrow> (string \<Rightarrow> jsval option) \<Rightarrow> string option
     \<Rightarrow> fetch_outcome list \<Rightarrow> string \<Rightarrow> jsval \<Rightarrow> agent_output \<times> fetch_outcome list" where
  "agent_analyze fallbackAnalysis names jsonParse apiKey net now text =
     (if apiKey = None \<or> apiKey = Some []
      then (LocalRecord (fallbackAnalysis now text), net)
      else (let (outcome, net') = fetch net
            in (case replyContent outcome of
                  Inl e \<Rightarrow> (LocalRecord (fallbackAnalysis now text), net')
                | Inr aiResponse \<Rightarrow>
                    (parseAIResponse names jsonParse now aiResponse text, net'))))"

definition ToxicityAgent_analyze ::
    "(string \<Rightarrow> jsval option) \<Rightarrow> string option \<Rightarrow> fetch_outcome list \<Rightarrow> string \<Rightarrow> jsval
     \<Rightarrow> agent_output \<times> fetch_outcome list" where
  "ToxicityAgent_analyze =
     agent_analyze ToxicityAgent_fallbackAnalysis ToxicityAgent_names"

definition BiasAgent_analyze ::
    "(string \<Rightarrow> jsval option) \<Rightarrow> string option \<Rightarrow> fetch_outcome list \<Rightarrow> string \<Rightarrow> jsval
     \<Rightarrow> agent_output \<times> fetch_outcome list" where
  "BiasAgent_analyze = agent_analyze BiasAgent_fallbackAnalysis BiasAgent_names"

definition MisinformationAgent_analyze ::
    "(string \<Rightarrow> jsval option) \<Rightarrow> string option \<Rightarrow> fetch_outcome list \<Rightarrow> string \<Rightarrow> jsval
     \<Rightarrow> agent_output \<times> fetch_outcome list" where
  "MisinformationAgent_analyze =
     agent_analyze MisinformationAgent_fallbackAnalysis MisinformationAgent_names"

definition CoordinationAgent_analyze ::
    "(string \<Rightarrow> jsval option) \<Rightarrow> string option \<Rightarrow> fetch_outcome list \<Rightarrow> string \<Rightarrow> jsval
     \<Rightarrow> agent_output \<times> fetch_outcome list" where
  "CoordinationAgent_analyze =
     agent_analyze CoordinationAgent_fallbackAnalysis CoordinationAgent_names"

text \<open>The flag and the severity of what an agent returned, as JavaScript values.\<close>

definition outputFlag :: "agent_names \<Rightarrow> agent_output \<Rightarrow> jsval" where
  "outputFlag names out =
     (case out of
        LocalRecord a \<Rightarrow> JBool (flagged a)
      | RemoteRecord props \<Rightarrow>
          (case map_of props (flagName names) of None \<Rightarrow> JUndefined | Some v \<Rightarrow> v))"

definition outputSeverity :: "agent_output \<Rightarrow> jsval" where
  "outputSeverity out =
     (case out of
        LocalRecord a \<Rightarrow> JStr (severity a)
      | RemoteRecord props \<Rightarrow>
          (case map_of props ''severity'' of None \<Rightarrow> JUndefined | Some v \<Rightarrow> v))"

section \<open>The aggregator (classifiers/classifyPost.js)\<close>

text \<open>A JavaScript number: an exact rational, or \<open>NaN\<close>.\<close>

datatype jsnum = Num rat | NaN

text \<open>
  The conversion \<open>ToNumber\<close>, applied by \<open>*\<close> to its operands. The conversion of a
  string, an array or an object goes through the built-in parser of numeric strings and
  is a parameter.
\<close>

definition ToNumber :: "(jsval \<Rightarrow> jsnum) \<Rightarrow> jsval \<Rightarrow> jsnum" where
  "ToNumber conv v =
     (case v of
        JUndefined \<Rightarrow> NaN
      | JNull \<Rightarrow> Num 0
      | JBool b \<Rightarrow> Num (if b then 1 else 0)
      | JNum q \<Rightarrow> Num q
      | JNaN \<Rightarrow> NaN
      | _ \<Rightarrow> conv v)"

definition num_times :: "jsnum \<Rightarrow> jsnum \<Rightarrow> jsnum" where
  "num_times a b = (case (a, b) of (Num x, Num y) \<Rightarrow> Num (x * y) | _ \<Rightarrow> NaN)"

definition num_plus :: "jsnum \<Rightarrow> jsnum \<Rightarrow> jsnum" where
  "num_plus a b = (case (a, b) of (Num x, Num y) \<Rightarrow> Num (x + y) | _ \<Rightarrow> NaN)"

definition num_minus :: "jsnum \<Rightarrow> jsnum \<Rightarrow> jsnum" where
  "num_minus a b = (case (a, b) of (Num x, Num y) \<Rightarrow> Num (x - y) | _ \<Rightarrow> NaN)"

text \<open>
  The number that the string \<open>x.toFixed(2)\<close> denotes, which is what \<open>Math.min\<close> makes of
  that string: \<open>x\<close> rounded to two decimals, a tie going away from zero. From
  \<open>10\<^sup>2\<^sup>1\<close> on \<open>toFixed\<close> prints the number itself. The rounding is that of
  the exact value: the code rounds the double it has computed, which at a tie of the
  exact sum (0.835, say) can lie on the other side.
\<close>

definition toFixed2 :: "jsnum \<Rightarrow> jsnum" where
  "toFixed2 v =
     (case v of
        NaN \<Rightarrow> NaN
      | Num x \<Rightarrow>
          (if \<bar>x\<bar> \<ge> 10 ^ 21 then Num x
           else if x < 0 then Num (- (of_int \<lfloor>(- x) * 100 + 1 / 2\<rfloor> / 100))
           else Num (of_int \<lfloor>x * 100 + 1 / 2\<rfloor> / 100)))"

definition Math_min :: "jsnum \<Rightarrow> jsnum \<Rightarrow> jsnum" where
  "Math_min a b = (case (a, b) of (Num x, Num y) \<Rightarrow> Num (min x y) | _ \<Rightarrow> NaN)"

definition Math_max :: "jsnum \<Rightarrow> jsnum \<Rightarrow> jsnum" where
  "Math_max a b = (case (a, b) of (Num x, Num y) \<Rightarrow> Num (max x y) | _ \<Rightarrow> NaN)"

text \<open>
  What \<open>require\<close> returns for an agent module, as far as \<open>classifyPost\<close> uses it: the
  functions that are properties of the exported value, by name. Calling a property that
  is not there throws a \<open>TypeError\<close>.
\<close>

type_synonym js_method = "jsval \<Rightarrow> js_error + jsval"

type_synonym js_module = "string \<Rightarrow> js_method option"

record agent_modules =
  biasAgent :: js_module
  coordinationAgent :: js_module
  misinformationAgent :: js_module
  toxicityAgent :: js_module
  toxicityAgentAI :: js_module

definition callMethod :: "string \<Rightarrow> js_module \<Rightarrow> string \<Rightarrow> jsval \<Rightarrow> js_error + jsval" where
  "callMethod moduleName m name arg =
     (case m name of
        None \<Rightarrow> Inl (TypeError (moduleName @ ''.'' @ name @ '' is not a function''))
      | Some f \<Rightarrow> f arg)"

text \<open>
  The argument of \<open>classifyPost\<close>, an object: its three properties, \<open>JUndefined\<close> for
  one it does not have.
\<close>

record post =
  title :: jsval
  content :: jsval
  metadata :: jsval

text \<open>The object \<open>classifyPost\<close> returns; \<open>analysisOf\<close> is its property \<open>analysis\<close>.\<close>

record classification =
  postId :: jsval
  postTitle :: jsval
  trustScore :: jsnum
  flaggedCategories :: "string list"
  analysisOf :: "(string \<times> jsval) list"

definition weightedScore :: "(jsval \<Rightarrow> jsnum) \<Rightarrow> jsval \<Rightarrow> rat \<Rightarrow> js_error + jsnum" where
  "weightedScore conv result weight =
     bindE (getProp result ''score'') (\<lambda>sc. Inr (num_times (ToNumber conv sc) (Num weight)))"

definition classifyPost ::
    "(jsval \<Rightarrow> jsnum) \<Rightarrow> agent_modules \<Rightarrow> post \<Rightarrow> js_error + classification" where
  "classifyPost conv mods p =
     (let metadata' = (if metadata p = JUndefined then JObj [] else metadata p)
      in bindE (callMethod ''biasAgent'' (biasAgent mods) ''analyze'' (content p)) (\<lambda>bias.
         bindE (callMethod ''coordinationAgent'' (coordinationAgent mods) ''analyze''
                  (content p)) (\<lambda>coordination.
         bindE (callMethod ''misinformationAgent'' (misinformationAgent mods) ''analyze''
                  (content p)) (\<lambda>misinformation.
         bindE (callMethod ''toxicityAgent'' (toxicityAgent mods) ''analyze''
                  (content p)) (\<lambda>toxicity.
         bindE (callMethod ''toxicityAgentAI'' (toxicityAgentAI mods) ''evaluate''
                  (content p)) (\<lambda>advancedToxicity.
         bindE (weightedScore conv bias (2 / 10)) (\<lambda>wBias.
         bindE (weightedScore conv coordination (2 / 10)) (\<lambda>wCoordination.
         bindE (weightedScore conv misinformation (3 / 10)) (\<lambda>wMisinformation.
         bindE (weightedScore conv toxicity (15 / 100)) (\<lambda>wToxicity.
         bindE (weightedScore conv advancedToxicity (15 / 100)) (\<lambda>wAdvanced.
         bindE (getProp bias ''flagged'') (\<lambda>fBias.
         bindE (getProp coordination ''flagged'') (\<lambda>fCoordination.
         bindE (getProp misinformation ''flagged'') (\<lambda>fMisinformation.
         bindE (getProp toxicity ''flagged'') (\<lambda>fToxicity.
         bindE (if truthy fToxicity then Inr fToxicity
                else getProp advancedToxicity ''flagged'') (\<lambda>fEither.
         bindE (getProp metadata' ''id'') (\<lambda>vId.
           (let raw = num_minus (Num 1)
                        (num_plus (num_plus (num_plus (num_plus wBias wCoordination)
                           wMisinformation) wToxicity) wAdvanced);
                flags = (if truthy fBias then [''Bias''] else [])
                      @ (if truthy fCoordination then [''Coordination''] else [])
                      @ (if truthy fMisinformation then [''Misinformation''] else [])
                      @ (if truthy fEither then [''Toxicity''] else [])
            in Inr \<lparr>postId = js_or vId JNull,
                    postTitle = title p,
                    trustScore = Math_max (Num 0) (Math_min (Num 1) (toFixed2 raw)),
                    flaggedCategories = flags,
                    analysisOf = [(''bias'', bias), (''coordination'', coordination),
                                  (''misinformation'', misinformation),
                                  (''toxicity'', toxicity),
                                  (''advancedToxicity'', advancedToxicity)]\<rparr>
           ))))))))))))))))))"

text \<open>
  The modules of the repository. Each of \<open>agents/biasAgent.js\<close>,
  \<open>agents/coordinationAgent.js\<close>, \<open>agents/misinformationAgent.js\<close>,
  \<open>agents/toxicityAgent.js\<close> and \<open>agents/toxicityAgentAI.js\<close> ends with
  \<open>module.exports = \<close> its class. The methods of a class (\<open>analyze\<close> and the others) are
  properties of its prototype, that is of its instances; no class declares a static
  method, so the exported class has no property \<open>analyze\<close> or \<open>evaluate\<close>. (What a
  class inherits from \<open>Function.prototype\<close>, such as \<open>call\<close> and \<open>bind\<close>, is left
  out: \<open>classifyPost\<close> asks for \<open>analyze\<close> and \<open>evaluate\<close> only.)
\<close>

definition classExport :: js_module where
  "classExport = (\<lambda>name. None)"

definition repositoryModules :: agent_modules where
  "repositoryModules =
     \<lparr>biasAgent = classExport, coordinationAgent = classExport,
      misinformationAgent = classExport, toxicityAgent = classExport,
      toxicityAgentAI = classExport\<rparr>"

text \<open>
  For comparison, modules of the shape \<open>classifyPost\<close> is written for: each exports a
  function \<open>analyze\<close> (\<open>evaluate\<close> for the fifth) that returns an object with the
  properties \<open>score\<close> and \<open>flagged\<close>.
\<close>

definition scoringModule :: "string \<Rightarrow> rat \<Rightarrow> bool \<Rightarrow> js_module" where
  "scoringModule method sc fl =
     (\<lambda>name. if name = method
              then Some (\<lambda>text. Inr (JObj [(''score'', JNum sc), (''flagged'', JBool fl)]))
              else None)"

definition scoringModules :: "rat \<Rightarrow> rat \<Rightarrow> rat \<Rightarrow> rat \<Rightarrow> rat \<Rightarrow> agent_modules" where
  "scoringModules b c m t adv =
     \<lparr>biasAgent = scoringModule ''analyze'' b (b \<ge> 2 / 10),
      coordinationAgent = scoringModule ''analyze'' c (c \<ge> 2 / 10),
      misinformationAgent = scoringModule ''analyze'' m (m \<ge> 2 / 10),
      toxicityAgent = scoringModule ''analyze'' t (t \<ge> 2 / 10),
      toxicityAgentAI = scoringModule ''evaluate'' adv (adv \<ge> 2 / 10)\<rparr>"

section \<open>Overall risk of a multi-agent run (routes/classify.js)\<close>

text \<open>
  The summary object built by \<open>analyzeWithAgents\<close>: one counter per severity bucket.
  The counters start at 0 and are only incremented, so they are natural numbers.
\<close>

record summary =
  totalIssues :: nat
  criticalIssues :: nat
  highIssues :: nat
  mediumIssues :: nat
  lowIssues :: nat

definition calculateOverallRisk :: "summary \<Rightarrow> string" where
  "calculateOverallRisk s =
     (if criticalIssues s > 0 then ''critical''
      else if highIssues s > 0 then ''high''
      else if mediumIssues s > 0 then ''medium''
      else if lowIssues s > 0 then ''low''
      else ''none'')"

text \<open>
  The spec's wording of the same function, for comparison: the buckets in decreasing
  order of preference, each with its count; the answer is the first bucket whose count
  is not zero, and \<open>none\<close> when there is no such bucket.
\<close>

definition overallRisk_buckets :: "summary \<Rightarrow> (string \<times> nat) list" where
  "overallRisk_buckets s =
     [(''critical'', criticalIssues s), (''high'', highIssues s),
      (''medium'', mediumIssues s), (''low'', lowIssues s)]"

definition overallRisk_spec :: "summary \<Rightarrow> string" where
  "overallRisk_spec s =
     (case filter (\<lambda>b. snd b \<noteq> 0) (overallRisk_buckets s) of
        [] \<Rightarrow> ''none''
      | b # _ \<Rightarrow> fst b)"

text \<open>
  The record of an agent as the JavaScript object it is, under the property names of
  that agent: the object literal of the \<open>catch\<close> blocks when there is an error message,
  the full literal otherwise.
\<close>

definition categoryObject :: "category_match \<Rightarrow> jsval" where
  "categoryObject m =
     JObj ([(''score'', JNum (score m)),
            (''matches'', JArr (map JStr (matches m))),
            (''count'', JNum (of_nat (count m)))]
           @ (case correction m of None \<Rightarrow> [] | Some c \<Rightarrow> [(''correction'', JStr c)]))"

definition agentObject :: "agent_names \<Rightarrow> analysis \<Rightarrow> jsval" where
  "agentObject names a =
     (case error a of
        Some msg \<Rightarrow>
          JObj [(''text'', sourceText a), (''error'', JStr msg),
                (flagName names, JBool (flagged a)),
                (scoreName names, JNum (aggregateScore a)),
                (''severity'', JStr (severity a)),
                (''timestamp'', JStr (timestamp a))]
      | None \<Rightarrow>
          JObj [(''text'', sourceText a),
                (flagName names, JBool (flagged a)),
                (scoreName names, JNum (aggregateScore a)),
                (''severity'', JStr (severity a)),
                (''categories'',
                   JObj (map (\<lambda>cat. (fst cat, categoryObject (snd cat))) (categories a))),
                (tokensName names, JArr (map JStr (flaggedTokens a))),
                (''recommendations'', JArr (map JStr (recommendations a))),
                (''model'', (case model a of None \<Rightarrow> JUndefined | Some m \<Rightarrow> JStr m)),
                (''timestamp'', JStr (timestamp a))])"

section \<open>Predicates of the specification\<close>

text \<open>
  The invariant the specification states for an analysis record: the flag is set exactly
  when the severity is not \<open>none\<close>.
\<close>

definition flagMatchesSeverity :: "agent_names \<Rightarrow> agent_output \<Rightarrow> bool" where
  "flagMatchesSeverity names out =
     (outputFlag names out = JBool (outputSeverity out \<noteq> JStr ''none''))"

text \<open>
  The remote call fails: there is no credential, or the request is rejected (a transport
  error), or the response has a status outside 200 to 299.
\<close>

definition remoteCallFails :: "string option \<Rightarrow> fetch_outcome list \<Rightarrow> bool" where
  "remoteCallFails apiKey net =
     (apiKey = None \<or> apiKey = Some [] \<or>
      (case fst (fetch net) of
         FetchRejected \<Rightarrow> True
       | FetchResponse status body \<Rightarrow> \<not> response_ok status))"

text \<open>
  The category entry as the specification describes it, for one category with its
  keywords and the tokens of a text: the matches are the tokens that contain at least
  one keyword, each as often as it occurs; the count is their number; the score is one
  increment for each of them, capped at 1; a category without a matching token has no
  entry.
\<close>

definition tokenEntry :: "rat \<Rightarrow> string list \<Rightarrow> string list \<Rightarrow> category_match option" where
  "tokenEntry inc keywords ws =
     (let hits = filter (\<lambda>word. list_ex (\<lambda>keyword. str_includes word keyword) keywords) ws
      in if hits = [] then None
         else Some \<lparr>score = min (of_nat (length hits) * inc) 1, matches = hits,
                    count = length hits, correction = None\<rparr>)"

text \<open>
  An entry of \<open>analysis.categories\<close> counts token occurrences: its category is in the
  table and the entry is the one above for the keywords of that category.
\<close>

definition countsTokenOccurrences ::
    "rat \<Rightarrow> (string \<times> string list) list \<Rightarrow> string list \<Rightarrow> string \<times> category_match \<Rightarrow> bool" where
  "countsTokenOccurrences inc table ws cat =
     (case map_of table (fst cat) of
        None \<Rightarrow> False
      | Some keywords \<Rightarrow> tokenEntry inc keywords ws = Some (snd cat))"

text \<open>
  The triggers of the misinformation agent as one table: the keyword categories, and
  the categories of the factual-error table with their phrases as keywords.
\<close>

definition MisinformationAgent_triggers :: "(string \<times> string list) list" where
  "MisinformationAgent_triggers =
     MisinformationAgent_fallbackPatterns
     @ map (\<lambda>c. (fst c, map fst (snd c))) MisinformationAgent_factualErrors"

text \<open>
  An entry written by the factual-error check (lines 456 to 461): the category is one
  of the factual-error table, and for a phrase of that category that occurs in the
  lower-case text the entry holds the score bound to the phrase, the phrase as its only
  match, the count 1 and the correction.
\<close>

definition factualEntry ::
    "string \<Rightarrow> (string \<times> (string \<times> factual_error) list) list \<Rightarrow> string \<times> category_match
     \<Rightarrow> bool" where
  "factualEntry lowerText table cat =
     list_ex (\<lambda>c. fst c = fst cat
               \<and> list_ex (\<lambda>e. str_includes lowerText (fst e)
                            \<and> snd cat = \<lparr>score = errorScore (snd e), matches = [fst e],
                                         count = 1, correction = Some (correct (snd e))\<rparr>)
                    (snd c))
       table"

section \<open>Properties of the pattern scan\<close>

lemma scanWords_filter:
  "scanWords inc keywords ws st =
     (fst st @ filter (\<lambda>word. list_ex (\<lambda>keyword. str_includes word keyword) keywords) ws,
      snd st + of_nat (length (filter (\<lambda>word. list_ex (\<lambda>keyword. str_includes word keyword) keywords) ws)) * inc)"
  by (induction ws arbitrary: st) (simp_all add: algebra_simps)

lemma str_includes_empty: "str_includes w []"
  by (cases w) simp_all

lemma str_includes_append: "str_includes w k \<Longrightarrow> str_includes (w @ r) k"
proof (induction w)
  case Nil
  then show ?case by (simp add: str_includes_empty)
next
  case (Cons c w)
  from Cons.prems have "prefix k (c # w) \<or> str_includes w k" by simp
  then show ?case
  proof
    assume "prefix k (c # w)"
    then have "prefix k ((c # w) @ r)" by (rule prefix_prefix)
    then show ?thesis by simp
  next
    assume "str_includes w k"
    then have "str_includes (w @ r) k" by (rule Cons.IH)
    then show ?thesis by simp
  qed
qed

lemma str_includes_prefix: "prefix w w' \<Longrightarrow> str_includes w k \<Longrightarrow> str_includes w' k"
  by (auto simp: prefix_def str_includes_append)

lemma split_from_nonempty: "split_from b s \<noteq> []"
  by (induction s arbitrary: b) (simp_all split: list.splits)

lemma split_from_append:
  "\<exists>bs cs. split_from b (t @ s) = bs @ cs \<and> list_all2 prefix (split_from b t) bs"
proof (induction t arbitrary: b)
  case Nil
  obtain x xs where "split_from b s = x # xs"
    using split_from_nonempty [of b s] by (cases "split_from b s") auto
  then have "split_from b ([] @ s) = [x] @ xs \<and> list_all2 prefix (split_from b []) [x]"
    by simp
  then show ?case by blast
next
  case (Cons c t)
  show ?case
  proof (cases "is_ws c")
    case True
    obtain bs cs where h: "split_from True (t @ s) = bs @ cs"
        "list_all2 prefix (split_from True t) bs"
      using Cons.IH [of True] by blast
    show ?thesis
    proof (cases b)
      case True
      with \<open>is_ws c\<close> h show ?thesis by auto
    next
      case False
      with \<open>is_ws c\<close> h have "split_from b ((c # t) @ s) = ([] # bs) @ cs
          \<and> list_all2 prefix (split_from b (c # t)) ([] # bs)"
        by simp
      then show ?thesis by blast
    qed
  next
    case False
    obtain bs cs where h: "split_from False (t @ s) = bs @ cs"
        "list_all2 prefix (split_from False t) bs"
      using Cons.IH [of False] by blast
    obtain w ws where w: "split_from False t = w # ws"
      using split_from_nonempty [of False t] by (cases "split_from False t") auto
    with h(2) obtain w' bs' where b: "bs = w' # bs'" "prefix w w'" "list_all2 prefix ws bs'"
      by (auto simp: list_all2_Cons1)
    from False h(1) w b have "split_from b ((c # t) @ s) = ((c # w') # bs') @ cs
        \<and> list_all2 prefix (split_from b (c # t)) ((c # w') # bs')"
      by simp
    then show ?thesis by blast
  qed
qed

lemma filter_prefix_count:
  assumes "list_all2 prefix as bs"
  shows "length (filter (\<lambda>word. list_ex (\<lambda>keyword. str_includes word keyword) ks) as)
       \<le> length (filter (\<lambda>word. list_ex (\<lambda>keyword. str_includes word keyword) ks) (bs @ cs))"
  using assms
proof (induction as bs rule: list_all2_induct)
  case Nil
  then show ?case by simp
next
  case (Cons a as b bs)
  have "list_ex (\<lambda>keyword. str_includes a keyword) ks \<Longrightarrow> list_ex (\<lambda>keyword. str_includes b keyword) ks"
    using Cons.hyps(1) by (auto simp: list_ex_iff intro: str_includes_prefix)
  with Cons.IH show ?case by auto
qed

lemma match_count_append:
  "length (filter (\<lambda>word. list_ex (\<lambda>keyword. str_includes word keyword) ks)
             (split_ws (toLowerCase text)))
   \<le> length (filter (\<lambda>word. list_ex (\<lambda>keyword. str_includes word keyword) ks)
             (split_ws (toLowerCase (text @ extra))))"
proof -
  obtain bs cs where "split_from False (toLowerCase text @ toLowerCase extra) = bs @ cs"
      "list_all2 prefix (split_from False (toLowerCase text)) bs"
    using split_from_append by blast
  then show ?thesis
    using filter_prefix_count [of "split_from False (toLowerCase text)" bs ks cs]
    by (simp add: split_ws_def toLowerCase_def)
qed

lemma map_of_assign: "map_of (assign ps k v) = (map_of ps)(k \<mapsto> v)"
  by (induction ps) (auto simp: fun_upd_twist)

lemma scanPatterns_lookup:
  "distinct (map fst ps) \<Longrightarrow>
   map_of (categories (scanPatterns inc ps ws a)) c =
     (case map_of ps c of
        None \<Rightarrow> map_of (categories a) c
      | Some ks \<Rightarrow>
          (if fst (scanWords inc ks ws ([], 0)) = [] then map_of (categories a) c
           else Some \<lparr>score = min (snd (scanWords inc ks ws ([], 0))) 1,
                      matches = fst (scanWords inc ks ws ([], 0)),
                      count = length (fst (scanWords inc ks ws ([], 0))),
                      correction = None\<rparr>))"
proof (induction ps arbitrary: a)
  case Nil
  then show ?case by simp
next
  case (Cons p ps)
  obtain category kws where p: "p = (category, kws)" by (cases p)
  from Cons.prems p have d: "distinct (map fst ps)" and n: "map_of ps category = None"
    by (simp_all add: map_of_eq_None_iff)
  note ih = Cons.IH [OF d]
  show ?case
  proof (cases "c = category")
    case True
    have keep: "map_of (categories (scanPatterns inc ps ws b)) category
        = map_of (categories b) category" for b
      using ih [of b] n True by simp
    show ?thesis
      by (simp add: p True keep Let_def map_of_assign)
  next
    case False
    then show ?thesis
      by (simp add: p ih Let_def map_of_assign split: option.split)
  qed
qed

section \<open>Properties of the score and the severity level\<close>

lemma scanPatterns_fields:
  "flagged (scanPatterns inc ps ws a) = flagged a
   \<and> severity (scanPatterns inc ps ws a) = severity a
   \<and> error (scanPatterns inc ps ws a) = error a
   \<and> recommendations (scanPatterns inc ps ws a) = recommendations a"
  by (induction inc ps ws a rule: scanPatterns.induct) (simp_all add: Let_def)

lemma overallScore_fields:
  "flagged (overallScore a) = flagged a"
  "severity (overallScore a) = severity a"
  "error (overallScore a) = error a"
  "categories (overallScore a) = categories a"
  "recommendations (overallScore a) = recommendations a"
  by (simp_all add: overallScore_def Let_def)

lemma foldl_plus_sum_list: "foldl (\<lambda>sum sc. sum + sc) (z :: rat) xs = z + sum_list xs"
  by (induction xs arbitrary: z) simp_all

lemma overallScore_value:
  "aggregateScore (overallScore a) =
     (if categories a = [] then 0
      else min (sum_list (map (\<lambda>cat. score (snd cat)) (categories a))
                  / of_nat (length (categories a))) 1)"
  by (simp add: overallScore_def Let_def foldl_plus_sum_list)

lemma determineSeverity_fields:
  "aggregateScore (determineSeverity a) = aggregateScore a"
  "error (determineSeverity a) = error a"
  "categories (determineSeverity a) = categories a"
  "recommendations (determineSeverity a) = recommendations a"
  by (simp_all add: determineSeverity_def)

lemma determineSeverity_severity:
  "severity (determineSeverity a) =
     (if aggregateScore a \<ge> 2 / 10 then getSeverityLevel (aggregateScore a) else severity a)"
  by (simp add: determineSeverity_def getSeverityLevel_def)

lemma determineSeverity_flagged:
  "flagged (determineSeverity a) = (aggregateScore a \<ge> 2 / 10 \<or> flagged a)"
  by (simp add: determineSeverity_def)

lemma getSeverityLevel_none: "(getSeverityLevel sc = ''none'') = (sc < 2 / 10)"
  by (simp add: getSeverityLevel_def)

lemma sum_list_lower:
  "(\<And>x. x \<in> set xs \<Longrightarrow> l \<le> x) \<Longrightarrow> l * of_nat (length xs) \<le> sum_list (xs :: rat list)"
  by (induction xs) (simp_all add: algebra_simps add_mono)

lemma mean_lower:
  assumes "xs \<noteq> []" "\<And>x. x \<in> set xs \<Longrightarrow> l \<le> x"
  shows "l \<le> sum_list (xs :: rat list) / of_nat (length xs)"
proof -
  have "0 < (of_nat (length xs) :: rat)" using assms(1) by simp
  moreover have "l * of_nat (length xs) \<le> sum_list xs" using assms(2) by (rule sum_list_lower)
  ultimately show ?thesis by (simp add: pos_le_divide_eq)
qed

lemma initialAnalysis_fields:
  "flagged (initialAnalysis now text) = False"
  "severity (initialAnalysis now text) = ''none''"
  "error (initialAnalysis now text) = None"
  "categories (initialAnalysis now text) = []"
  "recommendations (initialAnalysis now text) = []"
  by (simp_all add: initialAnalysis_def)

text \<open>The pipeline scan, score, severity from an analysis that is not flagged yet.\<close>

lemma pipeline_unflagged:
  assumes "flagged a = False" "severity a = ''none''"
  shows "severity (determineSeverity (overallScore (scanPatterns inc ps ws a)))
           = getSeverityLevel (aggregateScore
               (determineSeverity (overallScore (scanPatterns inc ps ws a))))
         \<and> flagged (determineSeverity (overallScore (scanPatterns inc ps ws a)))
           = (severity (determineSeverity (overallScore (scanPatterns inc ps ws a)))
                \<noteq> ''none'')"
proof -
  let ?b = "overallScore (scanPatterns inc ps ws a)"
  have f: "flagged ?b = False" and s: "severity ?b = ''none''"
    using assms by (simp_all add: overallScore_fields scanPatterns_fields)
  show ?thesis
  proof (cases "aggregateScore ?b \<ge> 2 / 10")
    case True
    then have "getSeverityLevel (aggregateScore ?b) \<noteq> ''none''"
      by (simp add: getSeverityLevel_none)
    with True show ?thesis
      by (simp add: determineSeverity_severity determineSeverity_flagged
          determineSeverity_fields)
  next
    case False
    then have "getSeverityLevel (aggregateScore ?b) = ''none''"
      by (simp add: getSeverityLevel_none)
    with False f s show ?thesis
      by (simp add: determineSeverity_severity determineSeverity_flagged
          determineSeverity_fields)
  qed
qed

lemma assign_nonempty: "assign ps k v \<noteq> []"
  by (cases ps) simp_all

lemma assign_all:
  "list_all (\<lambda>cat. P (snd cat)) ps \<Longrightarrow> P v \<Longrightarrow> list_all (\<lambda>cat. P (snd cat)) (assign ps k v)"
  by (induction ps) simp_all

lemma scanPatterns_nonempty:
  "categories a \<noteq> [] \<Longrightarrow> categories (scanPatterns inc ps ws a) \<noteq> []"
proof (induction ps arbitrary: a)
  case Nil
  then show ?case by simp
next
  case (Cons p ps)
  obtain category kws where p: "p = (category, kws)" by (cases p)
  show ?case
    using Cons.prems by (simp add: p Let_def Cons.IH assign_nonempty)
qed

lemma scanPatterns_all:
  assumes "list_all (\<lambda>cat. P (snd cat)) (categories a)"
    and "\<And>ks. fst (scanWords inc ks ws ([], 0)) \<noteq> [] \<Longrightarrow>
           P \<lparr>score = min (snd (scanWords inc ks ws ([], 0))) 1,
              matches = fst (scanWords inc ks ws ([], 0)),
              count = length (fst (scanWords inc ks ws ([], 0))),
              correction = None\<rparr>"
  shows "list_all (\<lambda>cat. P (snd cat)) (categories (scanPatterns inc ps ws a))"
  using assms(1)
proof (induction ps arbitrary: a)
  case Nil
  then show ?case by simp
next
  case (Cons p ps)
  obtain category kws where p: "p = (category, kws)" by (cases p)
  show ?case
    using Cons.prems assms(2) [of kws]
    by (simp add: p Let_def Cons.IH assign_all)
qed

text \<open>A matched category scores at least one increment and at most 1.\<close>

lemma entry_score_bounds:
  assumes "0 \<le> inc" "inc \<le> 1" "fst (scanWords inc ks ws ([], 0)) \<noteq> []"
  shows "inc \<le> min (snd (scanWords inc ks ws ([], 0))) 1"
proof -
  let ?n = "length (filter (\<lambda>word. list_ex (\<lambda>keyword. str_includes word keyword) ks) ws)"
  from assms(3) have "0 < ?n" by (simp add: scanWords_filter)
  then have "Suc 0 \<le> ?n" by (rule Suc_leI)
  then have "(of_nat (Suc 0) :: rat) \<le> of_nat ?n" by (simp only: of_nat_le_iff)
  then have "1 \<le> (of_nat ?n :: rat)" by simp
  then have "1 * inc \<le> of_nat ?n * inc" using assms(1) by (rule mult_right_mono)
  then show ?thesis using assms(2) by (simp add: scanWords_filter)
qed

lemma overallScore_bounds:
  assumes "list_all (\<lambda>cat. l \<le> score (snd cat)) (categories a)" "0 \<le> l" "l \<le> 1"
  shows "0 \<le> aggregateScore (overallScore a)"
    and "aggregateScore (overallScore a) \<le> 1"
    and "categories a \<noteq> [] \<Longrightarrow> l \<le> aggregateScore (overallScore a)"
proof -
  have m: "l \<le> sum_list (map (\<lambda>cat. score (snd cat)) (categories a))
            / of_nat (length (categories a))" if "categories a \<noteq> []"
  proof -
    have "l \<le> sum_list (map (\<lambda>cat. score (snd cat)) (categories a))
            / of_nat (length (map (\<lambda>cat. score (snd cat)) (categories a)))"
      using that assms(1) by (intro mean_lower) (auto simp: list_all_iff)
    then show ?thesis by simp
  qed
  show "categories a \<noteq> [] \<Longrightarrow> l \<le> aggregateScore (overallScore a)"
    using m assms(3) by (simp add: overallScore_value)
  show "0 \<le> aggregateScore (overallScore a)"
  proof (cases "categories a = []")
    case True
    then show ?thesis by (simp add: overallScore_value)
  next
    case False
    with m assms(2) have "0 \<le> sum_list (map (\<lambda>cat. score (snd cat)) (categories a))
            / of_nat (length (categories a))" by linarith
    with False show ?thesis by (simp add: overallScore_value)
  qed
  show "aggregateScore (overallScore a) \<le> 1"
    by (simp add: overallScore_value)
qed

text \<open>The state of the factual-error check, whatever the text.\<close>

lemma checkErrors_state:
  assumes "list_all (\<lambda>e. l \<le> errorScore (snd e)) es"
    and "flagged (snd st) = fst st \<and> severity (snd st) = ''none''
         \<and> (fst st \<longrightarrow> categories (snd st) \<noteq> [])
         \<and> list_all (\<lambda>cat. l \<le> score (snd cat)) (categories (snd st))"
  shows "flagged (snd (checkErrors lowerText category es st))
           = fst (checkErrors lowerText category es st)
         \<and> severity (snd (checkErrors lowerText category es st)) = ''none''
         \<and> (fst (checkErrors lowerText category es st)
              \<longrightarrow> categories (snd (checkErrors lowerText category es st)) \<noteq> [])
         \<and> list_all (\<lambda>cat. l \<le> score (snd cat))
              (categories (snd (checkErrors lowerText category es st)))"
  using assms
proof (induction es arbitrary: st)
  case Nil
  then show ?case by simp
next
  case (Cons e es)
  obtain errorPattern corr where e: "e = (errorPattern, corr)" by (cases e)
  from Cons.prems(1) e have sc: "l \<le> errorScore corr"
    and rest: "list_all (\<lambda>e. l \<le> errorScore (snd e)) es"
    by simp_all
  show ?case
  proof (cases "str_includes lowerText errorPattern")
    case True
    have "list_all (\<lambda>cat. l \<le> score (snd cat))
            (assign (categories (snd st)) category
               \<lparr>score = errorScore corr, matches = [errorPattern], count = 1,
                correction = Some (correct corr)\<rparr>)"
      using Cons.prems(2) sc by (intro assign_all) simp_all
    with True Cons.prems(2) show ?thesis
      by (simp add: e) (rule Cons.IH [OF rest], simp add: assign_nonempty)
  next
    case False
    then show ?thesis
      using Cons.prems(2) by (simp add: e) (rule Cons.IH [OF rest])
  qed
qed

lemma checkFactualErrors_state:
  assumes "list_all (\<lambda>c. list_all (\<lambda>e. l \<le> errorScore (snd e)) (snd c)) table"
    and "flagged (snd st) = fst st \<and> severity (snd st) = ''none''
         \<and> (fst st \<longrightarrow> categories (snd st) \<noteq> [])
         \<and> list_all (\<lambda>cat. l \<le> score (snd cat)) (categories (snd st))"
  shows "flagged (snd (checkFactualErrors lowerText table st))
           = fst (checkFactualErrors lowerText table st)
         \<and> severity (snd (checkFactualErrors lowerText table st)) = ''none''
         \<and> (fst (checkFactualErrors lowerText table st)
              \<longrightarrow> categories (snd (checkFactualErrors lowerText table st)) \<noteq> [])
         \<and> list_all (\<lambda>cat. l \<le> score (snd cat))
              (categories (snd (checkFactualErrors lowerText table st)))"
  using assms
proof (induction table arbitrary: st)
  case Nil
  then show ?case by simp
next
  case (Cons c cs)
  obtain category errors where c: "c = (category, errors)" by (cases c)
  from Cons.prems(1) c have here: "list_all (\<lambda>e. l \<le> errorScore (snd e)) errors"
    and rest: "list_all (\<lambda>c. list_all (\<lambda>e. l \<le> errorScore (snd e)) (snd c)) cs"
    by simp_all
  show ?case
    by (simp add: c) (rule Cons.IH [OF rest checkErrors_state [OF here Cons.prems(2)]])
qed

lemma factualErrors_scores:
  "list_all (\<lambda>c. list_all (\<lambda>e. 2 / 10 \<le> errorScore (snd e)) (snd c))
     MisinformationAgent_factualErrors"
  by (simp add: MisinformationAgent_factualErrors_def)

lemma entry_score_nonneg:
  assumes "0 \<le> inc"
  shows "0 \<le> snd (scanWords inc ks ws ([], 0))"
  using assms by (simp add: scanWords_filter)

text \<open>
  The three steps scan, score and severity level, run on an analysis whose category
  scores are not negative.
\<close>

lemma pipeline_bounds:
  assumes "0 \<le> inc" "list_all (\<lambda>cat. 0 \<le> score (snd cat)) (categories a)"
  shows "0 \<le> aggregateScore (determineSeverity (overallScore (scanPatterns inc ps ws a)))
       \<and> aggregateScore (determineSeverity (overallScore (scanPatterns inc ps ws a))) \<le> 1"
proof -
  have "list_all (\<lambda>cat. 0 \<le> score (snd cat)) (categories (scanPatterns inc ps ws a))"
    using assms(2) by (rule scanPatterns_all) (simp add: entry_score_nonneg [OF assms(1)])
  then show ?thesis
    using overallScore_bounds(1,2) [of 0 "scanPatterns inc ps ws a"]
    by (simp add: determineSeverity_fields)
qed

text \<open>The same steps on an analysis that the factual-error check has flagged.\<close>

lemma pipeline_flagged:
  assumes "flagged a" "categories a \<noteq> []"
    and "list_all (\<lambda>cat. 2 / 10 \<le> score (snd cat)) (categories a)"
  shows "severity (determineSeverity (overallScore
                     (scanPatterns (2 / 10) ps ws a)))
           = getSeverityLevel (aggregateScore
               (determineSeverity (overallScore (scanPatterns (2 / 10) ps ws a))))
         \<and> flagged (determineSeverity (overallScore (scanPatterns (2 / 10) ps ws a)))
           = (severity (determineSeverity (overallScore (scanPatterns (2 / 10) ps ws a)))
                \<noteq> ''none'')"
proof -
  let ?b = "overallScore (scanPatterns (2 / 10) ps ws a)"
  have all: "list_all (\<lambda>cat. 2 / 10 \<le> score (snd cat))
               (categories (scanPatterns (2 / 10) ps ws a))"
    using assms(3)
  proof (rule scanPatterns_all)
    fix ks
    assume "fst (scanWords (2 / 10) ks ws ([], 0)) \<noteq> []"
    then have "2 / 10 \<le> min (snd (scanWords (2 / 10) ks ws ([], 0))) 1"
      by (intro entry_score_bounds) simp_all
    then show "2 / 10 \<le> score \<lparr>score = min (snd (scanWords (2 / 10) ks ws ([], 0))) 1,
        matches = fst (scanWords (2 / 10) ks ws ([], 0)),
        count = length (fst (scanWords (2 / 10) ks ws ([], 0))), correction = None\<rparr>"
      by simp
  qed
  have ne: "categories (scanPatterns (2 / 10) ps ws a) \<noteq> []"
    using assms(2) by (rule scanPatterns_nonempty)
  have low: "2 / 10 \<le> aggregateScore ?b"
    using overallScore_bounds(3) [OF all _ _ ne] by simp
  then have "getSeverityLevel (aggregateScore ?b) \<noteq> ''none''"
    by (simp add: getSeverityLevel_none)
  with low show ?thesis
    by (simp add: determineSeverity_severity determineSeverity_flagged
        determineSeverity_fields)
qed

lemma callToLowerCase_cases:
  "(\<exists>s. v = JStr s) \<or> (\<exists>e. callToLowerCase v = Inl e)"
  by (cases v) (simp_all add: callToLowerCase_def)

lemma errorAnalysis_fields:
  "aggregateScore (errorAnalysis now text msg) = 0"
  "severity (errorAnalysis now text msg) = ''error''"
  "flagged (errorAnalysis now text msg) = False"
  "error (errorAnalysis now text msg) = Some msg"
  by (simp_all add: errorAnalysis_def)

section \<open>The four fallback analyses\<close>

text \<open>
  What a fallback analysis returns on a string: the result \<open>b\<close> of scan, score and
  severity level, with recommendations appended. On any other value the \<open>catch\<close>
  block answers.
\<close>

lemma ToxicityAgent_string:
  "\<exists>recs. ToxicityAgent_fallbackAnalysis now (JStr s) =
     (determineSeverity (overallScore
        (scanPatterns (3 / 10) ToxicityAgent_fallbackPatterns
           (split_ws (toLowerCase s)) (initialAnalysis now (JStr s)))))
     \<lparr>recommendations := recs\<rparr>"
proof -
  let ?b = "determineSeverity (overallScore
        (scanPatterns (3 / 10) ToxicityAgent_fallbackPatterns
           (split_ws (toLowerCase s)) (initialAnalysis now (JStr s))))"
  have "ToxicityAgent_fallbackAnalysis now (JStr s) = ?b\<lparr>recommendations := recommendations ?b\<rparr>
      \<or> ToxicityAgent_fallbackAnalysis now (JStr s) = ?b\<lparr>recommendations := recommendations ?b
           @ [''Toxic content detected. Consider moderation.'']\<rparr>
      \<or> ToxicityAgent_fallbackAnalysis now (JStr s) = ?b\<lparr>recommendations := recommendations ?b
           @ [''Toxic content detected. Consider moderation.'']
           @ [''Personal insults detected. Review for community guidelines.'']\<rparr>"
    by (simp add: ToxicityAgent_fallbackAnalysis_def ToxicityAgent_fallbackBody_def
        callToLowerCase_def Let_def)
  then show ?thesis by blast
qed

lemma BiasAgent_string:
  "\<exists>recs. BiasAgent_fallbackAnalysis now (JStr s) =
     (determineSeverity (overallScore
        (scanPatterns (2 / 10) BiasAgent_fallbackPatterns
           (split_ws (toLowerCase s)) (initialAnalysis now (JStr s)))))
     \<lparr>recommendations := recs\<rparr>"
proof -
  let ?b = "determineSeverity (overallScore
        (scanPatterns (2 / 10) BiasAgent_fallbackPatterns
           (split_ws (toLowerCase s)) (initialAnalysis now (JStr s))))"
  have "BiasAgent_fallbackAnalysis now (JStr s) = ?b\<lparr>recommendations := recommendations ?b\<rparr>
      \<or> BiasAgent_fallbackAnalysis now (JStr s) = ?b\<lparr>recommendations := recommendations ?b
           @ [''Bias detected. Consider using more inclusive language.'']\<rparr>"
    by (simp add: BiasAgent_fallbackAnalysis_def BiasAgent_fallbackBody_def
        callToLowerCase_def Let_def)
  then show ?thesis by blast
qed

lemma CoordinationAgent_string:
  "\<exists>recs. CoordinationAgent_fallbackAnalysis now (JStr s) =
     (determineSeverity (overallScore
        (scanPatterns (15 / 100) CoordinationAgent_fallbackPatterns
           (split_ws (toLowerCase s)) (initialAnalysis now (JStr s)))))
     \<lparr>recommendations := recs\<rparr>"
proof -
  let ?b = "determineSeverity (overallScore
        (scanPatterns (15 / 100) CoordinationAgent_fallbackPatterns
           (split_ws (toLowerCase s)) (initialAnalysis now (JStr s))))"
  have "CoordinationAgent_fallbackAnalysis now (JStr s) = ?b\<lparr>recommendations := recommendations ?b\<rparr>
      \<or> CoordinationAgent_fallbackAnalysis now (JStr s) = ?b\<lparr>recommendations := recommendations ?b
           @ [''Coordinated behavior detected. Monitor for inauthentic activity.'']\<rparr>"
    by (simp add: CoordinationAgent_fallbackAnalysis_def CoordinationAgent_fallbackBody_def
        callToLowerCase_def Let_def)
  then show ?thesis by blast
qed

lemma MisinformationAgent_string:
  "\<exists>recs. MisinformationAgent_fallbackAnalysis now (JStr s) =
     (determineSeverity (overallScore
        (scanPatterns (2 / 10) MisinformationAgent_fallbackPatterns
           (split_ws (toLowerCase s))
           (snd (checkFactualErrors (toLowerCase s) MisinformationAgent_factualErrors
                   (False, initialAnalysis now (JStr s)))))))
     \<lparr>recommendations := recs\<rparr>"
proof -
  let ?b = "determineSeverity (overallScore
        (scanPatterns (2 / 10) MisinformationAgent_fallbackPatterns
           (split_ws (toLowerCase s))
           (snd (checkFactualErrors (toLowerCase s) MisinformationAgent_factualErrors
                   (False, initialAnalysis now (JStr s))))))"
  have "MisinformationAgent_fallbackAnalysis now (JStr s) = ?b\<lparr>recommendations := recommendations ?b\<rparr>
      \<or> MisinformationAgent_fallbackAnalysis now (JStr s) = ?b\<lparr>recommendations := recommendations ?b
           @ [''Misinformation detected. Verify claims with reliable sources.'']\<rparr>"
    by (simp add: MisinformationAgent_fallbackAnalysis_def MisinformationAgent_fallbackBody_def
        callToLowerCase_def Let_def)
  then show ?thesis by blast
qed

lemma plain_pipeline:
  assumes "0 \<le> inc"
    and "r = (determineSeverity (overallScore
                (scanPatterns inc ps ws (initialAnalysis now v))))\<lparr>recommendations := recs\<rparr>"
  shows "severity r = getSeverityLevel (aggregateScore r)
       \<and> flagged r = (severity r \<noteq> ''none'')
       \<and> 0 \<le> aggregateScore r \<and> aggregateScore r \<le> 1"
  using pipeline_unflagged [of "initialAnalysis now v" inc ps ws]
    pipeline_bounds [OF assms(1), of "initialAnalysis now v" ps ws]
  by (simp add: assms(2) initialAnalysis_fields)

lemma factual_pipeline:
  assumes "r = (determineSeverity (overallScore
                (scanPatterns (2 / 10) ps ws
                   (snd (checkFactualErrors lowerText MisinformationAgent_factualErrors
                           (False, initialAnalysis now v))))))\<lparr>recommendations := recs\<rparr>"
  shows "severity r = getSeverityLevel (aggregateScore r)
       \<and> flagged r = (severity r \<noteq> ''none'')
       \<and> 0 \<le> aggregateScore r \<and> aggregateScore r \<le> 1"
proof -
  let ?st = "checkFactualErrors lowerText MisinformationAgent_factualErrors
               (False, initialAnalysis now v)"
  have st: "flagged (snd ?st) = fst ?st \<and> severity (snd ?st) = ''none''
      \<and> (fst ?st \<longrightarrow> categories (snd ?st) \<noteq> [])
      \<and> list_all (\<lambda>cat. 2 / 10 \<le> score (snd cat)) (categories (snd ?st))"
    by (rule checkFactualErrors_state [OF factualErrors_scores])
      (simp add: initialAnalysis_fields)
  then have "list_all (\<lambda>cat. 0 \<le> score (snd cat)) (categories (snd ?st))"
    by (auto simp: list_all_iff)
  then have bounds: "0 \<le> aggregateScore r \<and> aggregateScore r \<le> 1"
    using pipeline_bounds [of "2 / 10" "snd ?st" ps ws] by (simp add: assms)
  show ?thesis
  proof (cases "fst ?st")
    case True
    with st have "flagged (snd ?st)" "categories (snd ?st) \<noteq> []" by simp_all
    then show ?thesis
      using pipeline_flagged [of "snd ?st" ps ws] st bounds by (simp add: assms)
  next
    case False
    with st have "flagged (snd ?st) = False" "severity (snd ?st) = ''none''" by simp_all
    then show ?thesis
      using pipeline_unflagged [of "snd ?st" "2 / 10" ps ws] bounds by (simp add: assms)
  qed
qed

lemma ToxicityAgent_facts:
  "severity (ToxicityAgent_fallbackAnalysis now (JStr s))
     = getSeverityLevel (aggregateScore (ToxicityAgent_fallbackAnalysis now (JStr s)))
   \<and> flagged (ToxicityAgent_fallbackAnalysis now (JStr s))
     = (severity (ToxicityAgent_fallbackAnalysis now (JStr s)) \<noteq> ''none'')
   \<and> 0 \<le> aggregateScore (ToxicityAgent_fallbackAnalysis now (JStr s))
   \<and> aggregateScore (ToxicityAgent_fallbackAnalysis now (JStr s)) \<le> 1"
proof -
  obtain recs where "ToxicityAgent_fallbackAnalysis now (JStr s) =
     (determineSeverity (overallScore
        (scanPatterns (3 / 10) ToxicityAgent_fallbackPatterns
           (split_ws (toLowerCase s)) (initialAnalysis now (JStr s)))))
     \<lparr>recommendations := recs\<rparr>"
    using ToxicityAgent_string by blast
  then show ?thesis by (intro plain_pipeline) simp_all
qed

lemma BiasAgent_facts:
  "severity (BiasAgent_fallbackAnalysis now (JStr s))
     = getSeverityLevel (aggregateScore (BiasAgent_fallbackAnalysis now (JStr s)))
   \<and> flagged (BiasAgent_fallbackAnalysis now (JStr s))
     = (severity (BiasAgent_fallbackAnalysis now (JStr s)) \<noteq> ''none'')
   \<and> 0 \<le> aggregateScore (BiasAgent_fallbackAnalysis now (JStr s))
   \<and> aggregateScore (BiasAgent_fallbackAnalysis now (JStr s)) \<le> 1"
proof -
  obtain recs where "BiasAgent_fallbackAnalysis now (JStr s) =
     (determineSeverity (overallScore
        (scanPatterns (2 / 10) BiasAgent_fallbackPatterns
           (split_ws (toLowerCase s)) (initialAnalysis now (JStr s)))))
     \<lparr>recommendations := recs\<rparr>"
    using BiasAgent_string by blast
  then show ?thesis by (intro plain_pipeline) simp_all
qed

lemma CoordinationAgent_facts:
  "severity (CoordinationAgent_fallbackAnalysis now (JStr s))
     = getSeverityLevel (aggregateScore (CoordinationAgent_fallbackAnalysis now (JStr s)))
   \<and> flagged (CoordinationAgent_fallbackAnalysis now (JStr s))
     = (severity (CoordinationAgent_fallbackAnalysis now (JStr s)) \<noteq> ''none'')
   \<and> 0 \<le> aggregateScore (CoordinationAgent_fallbackAnalysis now (JStr s))
   \<and> aggregateScore (CoordinationAgent_fallbackAnalysis now (JStr s)) \<le> 1"
proof -
  obtain recs where "CoordinationAgent_fallbackAnalysis now (JStr s) =
     (determineSeverity (overallScore
        (scanPatterns (15 / 100) CoordinationAgent_fallbackPatterns
           (split_ws (toLowerCase s)) (initialAnalysis now (JStr s)))))
     \<lparr>recommendations := recs\<rparr>"
    using CoordinationAgent_string by blast
  then show ?thesis by (intro plain_pipeline) simp_all
qed

lemma MisinformationAgent_facts:
  "severity (MisinformationAgent_fallbackAnalysis now (JStr s))
     = getSeverityLevel (aggregateScore (MisinformationAgent_fallbackAnalysis now (JStr s)))
   \<and> flagged (MisinformationAgent_fallbackAnalysis now (JStr s))
     = (severity (MisinformationAgent_fallbackAnalysis now (JStr s)) \<noteq> ''none'')
   \<and> 0 \<le> aggregateScore (MisinformationAgent_fallbackAnalysis now (JStr s))
   \<and> aggregateScore (MisinformationAgent_fallbackAnalysis now (JStr s)) \<le> 1"
proof -
  obtain recs where "MisinformationAgent_fallbackAnalysis now (JStr s) =
     (determineSeverity (overallScore
        (scanPatterns (2 / 10) MisinformationAgent_fallbackPatterns
           (split_ws (toLowerCase s))
           (snd (checkFactualErrors (toLowerCase s) MisinformationAgent_factualErrors
                   (False, initialAnalysis now (JStr s)))))))
     \<lparr>recommendations := recs\<rparr>"
    using MisinformationAgent_string by blast
  then show ?thesis by (rule factual_pipeline)
qed

text \<open>On a value that is not a string the \<open>catch\<close> block answers.\<close>

lemma fallback_catch:
  assumes "callToLowerCase v = Inl e"
  shows "ToxicityAgent_fallbackAnalysis now v
           = errorAnalysis now v ''Both API and fallback analysis failed''"
    and "BiasAgent_fallbackAnalysis now v
           = errorAnalysis now v ''Both API and fallback analysis failed''"
    and "MisinformationAgent_fallbackAnalysis now v
           = errorAnalysis now v ''Both API and fallback analysis failed''"
    and "CoordinationAgent_fallbackAnalysis now v
           = errorAnalysis now v ''Both API and fallback analysis failed''"
  using assms
  by (simp_all add: ToxicityAgent_fallbackAnalysis_def ToxicityAgent_fallbackBody_def
      BiasAgent_fallbackAnalysis_def BiasAgent_fallbackBody_def
      MisinformationAgent_fallbackAnalysis_def MisinformationAgent_fallbackBody_def
      CoordinationAgent_fallbackAnalysis_def CoordinationAgent_fallbackBody_def)

lemma fallback_body_catch:
  assumes "callToLowerCase v = Inl e"
  shows "ToxicityAgent_fallbackBody now v = Inl e"
    and "BiasAgent_fallbackBody now v = Inl e"
    and "MisinformationAgent_fallbackBody now v = Inl e"
    and "CoordinationAgent_fallbackBody now v = Inl e"
  using assms
  by (simp_all add: ToxicityAgent_fallbackBody_def BiasAgent_fallbackBody_def
      MisinformationAgent_fallbackBody_def CoordinationAgent_fallbackBody_def)

lemma fallback_body_string:
  "\<exists>a. ToxicityAgent_fallbackBody now (JStr s) = Inr a"
  "\<exists>a. BiasAgent_fallbackBody now (JStr s) = Inr a"
  "\<exists>a. MisinformationAgent_fallbackBody now (JStr s) = Inr a"
  "\<exists>a. CoordinationAgent_fallbackBody now (JStr s) = Inr a"
  by (simp_all add: ToxicityAgent_fallbackBody_def BiasAgent_fallbackBody_def
      MisinformationAgent_fallbackBody_def CoordinationAgent_fallbackBody_def
      callToLowerCase_def Let_def)

lemma fallback_categories:
  "categories (ToxicityAgent_fallbackAnalysis now (JStr s))
     = categories (scanPatterns (3 / 10) ToxicityAgent_fallbackPatterns
         (split_ws (toLowerCase s)) (initialAnalysis now (JStr s)))"
  "categories (BiasAgent_fallbackAnalysis now (JStr s))
     = categories (scanPatterns (2 / 10) BiasAgent_fallbackPatterns
         (split_ws (toLowerCase s)) (initialAnalysis now (JStr s)))"
  "categories (CoordinationAgent_fallbackAnalysis now (JStr s))
     = categories (scanPatterns (15 / 100) CoordinationAgent_fallbackPatterns
         (split_ws (toLowerCase s)) (initialAnalysis now (JStr s)))"
  "categories (MisinformationAgent_fallbackAnalysis now (JStr s))
     = categories (scanPatterns (2 / 10) MisinformationAgent_fallbackPatterns
         (split_ws (toLowerCase s))
         (snd (checkFactualErrors (toLowerCase s) MisinformationAgent_factualErrors
                 (False, initialAnalysis now (JStr s)))))"
proof -
  show "categories (ToxicityAgent_fallbackAnalysis now (JStr s))
     = categories (scanPatterns (3 / 10) ToxicityAgent_fallbackPatterns
         (split_ws (toLowerCase s)) (initialAnalysis now (JStr s)))"
    using ToxicityAgent_string [of now s]
    by (auto simp: determineSeverity_fields overallScore_fields)
  show "categories (BiasAgent_fallbackAnalysis now (JStr s))
     = categories (scanPatterns (2 / 10) BiasAgent_fallbackPatterns
         (split_ws (toLowerCase s)) (initialAnalysis now (JStr s)))"
    using BiasAgent_string [of now s]
    by (auto simp: determineSeverity_fields overallScore_fields)
  show "categories (CoordinationAgent_fallbackAnalysis now (JStr s))
     = categories (scanPatterns (15 / 100) CoordinationAgent_fallbackPatterns
         (split_ws (toLowerCase s)) (initialAnalysis now (JStr s)))"
    using CoordinationAgent_string [of now s]
    by (auto simp: determineSeverity_fields overallScore_fields)
  show "categories (MisinformationAgent_fallbackAnalysis now (JStr s))
     = categories (scanPatterns (2 / 10) MisinformationAgent_fallbackPatterns
         (split_ws (toLowerCase s))
         (snd (checkFactualErrors (toLowerCase s) MisinformationAgent_factualErrors
                 (False, initialAnalysis now (JStr s)))))"
    using MisinformationAgent_string [of now s]
    by (auto simp: determineSeverity_fields overallScore_fields)
qed

text \<open>
  The factual-error check, in closed form: the flag is raised when some pattern occurs
  in the text, and one correction is recommended for each pattern that occurs.
\<close>

lemma checkErrors_found:
  "fst (checkErrors lowerText category es st)
     = (fst st \<or> list_ex (\<lambda>e. str_includes lowerText (fst e)) es)
   \<and> flagged (snd (checkErrors lowerText category es st))
     = (flagged (snd st) \<or> list_ex (\<lambda>e. str_includes lowerText (fst e)) es)
   \<and> recommendations (snd (checkErrors lowerText category es st))
     = recommendations (snd st)
       @ map (\<lambda>e. ''Factual error detected: '' @ correct (snd e))
           (filter (\<lambda>e. str_includes lowerText (fst e)) es)"
proof (induction es arbitrary: st)
  case Nil
  then show ?case by simp
next
  case (Cons e es)
  obtain errorPattern corr where e: "e = (errorPattern, corr)" by (cases e)
  show ?case by (simp add: e Cons.IH)
qed

lemma checkFactualErrors_found:
  "fst (checkFactualErrors lowerText table st)
     = (fst st \<or> list_ex (\<lambda>c. list_ex (\<lambda>e. str_includes lowerText (fst e)) (snd c)) table)
   \<and> flagged (snd (checkFactualErrors lowerText table st))
     = (flagged (snd st)
        \<or> list_ex (\<lambda>c. list_ex (\<lambda>e. str_includes lowerText (fst e)) (snd c)) table)
   \<and> recommendations (snd (checkFactualErrors lowerText table st))
     = recommendations (snd st)
       @ concat (map (\<lambda>c. map (\<lambda>e. ''Factual error detected: '' @ correct (snd e))
                              (filter (\<lambda>e. str_includes lowerText (fst e)) (snd c))) table)"
proof (induction table arbitrary: st)
  case Nil
  then show ?case by simp
next
  case (Cons c cs)
  obtain category errors where c: "c = (category, errors)" by (cases c)
  show ?case by (simp add: c Cons.IH checkErrors_found)
qed

text \<open>
  The part of the factual-error override that the misinformation fallback keeps: a text
  whose lower-case form contains a phrase of the table is flagged, the correction of the
  phrase is recommended, and the generic recommendation is not.
\<close>

lemma factual_error_flag_and_correction:
  assumes "(category, errors) \<in> set MisinformationAgent_factualErrors"
    and "(errorPattern, corr) \<in> set errors"
    and "str_includes (toLowerCase s) errorPattern"
  shows "flagged (MisinformationAgent_fallbackAnalysis now (JStr s))
       \<and> (''Factual error detected: '' @ correct corr)
           \<in> set (recommendations (MisinformationAgent_fallbackAnalysis now (JStr s)))
       \<and> ''Misinformation detected. Verify claims with reliable sources.''
           \<notin> set (recommendations (MisinformationAgent_fallbackAnalysis now (JStr s)))"
proof -
  let ?table = MisinformationAgent_factualErrors
  let ?st = "checkFactualErrors (toLowerCase s) ?table (False, initialAnalysis now (JStr s))"
  let ?b = "determineSeverity (overallScore
        (scanPatterns (2 / 10) MisinformationAgent_fallbackPatterns
           (split_ws (toLowerCase s)) (snd ?st)))"
  have found: "list_ex (\<lambda>c. list_ex (\<lambda>e. str_includes (toLowerCase s) (fst e)) (snd c)) ?table"
    using assms by (force simp: list_ex_iff)
  then have f: "fst ?st" and fl: "flagged (snd ?st)"
    by (simp_all add: checkFactualErrors_found)
  have recs: "recommendations (snd ?st)
      = concat (map (\<lambda>c. map (\<lambda>e. ''Factual error detected: '' @ correct (snd e))
                              (filter (\<lambda>e. str_includes (toLowerCase s) (fst e)) (snd c))) ?table)"
    by (simp add: checkFactualErrors_found initialAnalysis_fields)
  have r: "MisinformationAgent_fallbackAnalysis now (JStr s) = ?b"
    using f by (simp add: MisinformationAgent_fallbackAnalysis_def
        MisinformationAgent_fallbackBody_def callToLowerCase_def Let_def)
  have rb: "recommendations ?b = recommendations (snd ?st)"
    by (simp add: determineSeverity_fields overallScore_fields scanPatterns_fields)
  have fb: "flagged ?b"
    using fl by (simp add: determineSeverity_flagged overallScore_fields scanPatterns_fields)
  have inrec: "(''Factual error detected: '' @ correct corr) \<in> set (recommendations (snd ?st))"
    unfolding recs using assms by force
  have notgen: "''Misinformation detected. Verify claims with reliable sources.''
      \<notin> set (recommendations (snd ?st))"
    unfolding recs by (simp add: image_iff)
  show ?thesis
    unfolding r rb using fb inrec notgen by blast
qed

section \<open>The entries of the categories\<close>

lemma assign_keys: "fst ` set (assign ps k v) = insert k (fst ` set ps)"
  by (induction ps) auto

lemma assign_distinct: "distinct (map fst ps) \<Longrightarrow> distinct (map fst (assign ps k v))"
proof (induction ps)
  case Nil
  then show ?case by simp
next
  case (Cons p ps)
  show ?case
  proof (cases "fst p = k")
    case True
    with Cons.prems show ?thesis by simp
  next
    case False
    have "fst p \<notin> fst ` set (assign ps k v)"
      using Cons.prems False by (simp add: assign_keys)
    with Cons False show ?thesis by simp
  qed
qed

lemma scanPatterns_distinct:
  "distinct (map fst (categories a)) \<Longrightarrow>
   distinct (map fst (categories (scanPatterns inc ps ws a)))"
proof (induction ps arbitrary: a)
  case Nil
  then show ?case by simp
next
  case (Cons p ps)
  obtain category kws where p: "p = (category, kws)" by (cases p)
  show ?case
    using Cons.prems by (simp add: p Let_def Cons.IH assign_distinct)
qed

lemma tokenEntry_scan:
  "tokenEntry inc ks ws =
     (if fst (scanWords inc ks ws ([], 0)) = [] then None
      else Some \<lparr>score = min (snd (scanWords inc ks ws ([], 0))) 1,
                 matches = fst (scanWords inc ks ws ([], 0)),
                 count = length (fst (scanWords inc ks ws ([], 0))),
                 correction = None\<rparr>)"
  by (simp add: tokenEntry_def scanWords_filter Let_def)

text \<open>The entries of a scan that starts from the given categories.\<close>

lemma scanPatterns_tokenEntry:
  assumes "distinct (map fst ps)"
  shows "map_of (categories (scanPatterns inc ps ws a)) c =
     (case map_of ps c of
        None \<Rightarrow> map_of (categories a) c
      | Some ks \<Rightarrow>
          (case tokenEntry inc ks ws of
             None \<Rightarrow> map_of (categories a) c
           | Some m \<Rightarrow> Some m))"
  by (simp add: scanPatterns_lookup [OF assms] tokenEntry_scan split: option.split)

lemma entries_count_tokens:
  assumes "distinct (map fst cats)"
    and "\<And>c. map_of cats c =
           (case map_of table c of None \<Rightarrow> None | Some ks \<Rightarrow> tokenEntry inc ks ws)"
  shows "list_all (countsTokenOccurrences inc table ws) cats"
proof -
  have "countsTokenOccurrences inc table ws cat" if "cat \<in> set cats" for cat
  proof -
    have "map_of cats (fst cat) = Some (snd cat)"
      using assms(1) that by (cases cat) simp
    then show ?thesis
      using assms(2) [of "fst cat"]
      by (simp add: countsTokenOccurrences_def split: option.splits)
  qed
  then show ?thesis by (simp add: list_all_iff)
qed

lemma assign_all_pairs: "list_all P ps \<Longrightarrow> P (k, v) \<Longrightarrow> list_all P (assign ps k v)"
  by (induction ps) simp_all

lemma checkErrors_entries:
  assumes "list_all P (categories (snd st))"
    and "\<And>e. e \<in> set es \<Longrightarrow> str_includes lowerText (fst e) \<Longrightarrow>
           P (category, \<lparr>score = errorScore (snd e), matches = [fst e], count = 1,
                          correction = Some (correct (snd e))\<rparr>)"
  shows "list_all P (categories (snd (checkErrors lowerText category es st)))"
  using assms
proof (induction es arbitrary: st)
  case Nil
  then show ?case by simp
next
  case (Cons e es)
  obtain errorPattern corr where e: "e = (errorPattern, corr)" by (cases e)
  have rest: "\<And>x. x \<in> set es \<Longrightarrow> str_includes lowerText (fst x) \<Longrightarrow>
           P (category, \<lparr>score = errorScore (snd x), matches = [fst x], count = 1,
                          correction = Some (correct (snd x))\<rparr>)"
    using Cons.prems(2) by simp
  show ?case
  proof (cases "str_includes lowerText errorPattern")
    case True
    have "P (category, \<lparr>score = errorScore corr, matches = [errorPattern], count = 1,
                          correction = Some (correct corr)\<rparr>)"
      using Cons.prems(2) [of e] True by (simp add: e)
    with Cons.prems(1) have "list_all P (assign (categories (snd st)) category
        \<lparr>score = errorScore corr, matches = [errorPattern], count = 1,
         correction = Some (correct corr)\<rparr>)"
      by (rule assign_all_pairs)
    with True show ?thesis
      by (simp add: e) (rule Cons.IH [OF _ rest], simp_all)
  next
    case False
    with Cons.prems(1) show ?thesis
      by (simp add: e) (rule Cons.IH [OF _ rest], simp_all)
  qed
qed

lemma checkFactualErrors_entries:
  assumes "list_all P (categories (snd st))"
    and "\<And>c e. c \<in> set table \<Longrightarrow> e \<in> set (snd c) \<Longrightarrow> str_includes lowerText (fst e) \<Longrightarrow>
           P (fst c, \<lparr>score = errorScore (snd e), matches = [fst e], count = 1,
                       correction = Some (correct (snd e))\<rparr>)"
  shows "list_all P (categories (snd (checkFactualErrors lowerText table st)))"
  using assms
proof (induction table arbitrary: st)
  case Nil
  then show ?case by simp
next
  case (Cons c cs)
  obtain category errors where c: "c = (category, errors)" by (cases c)
  have here: "list_all P (categories (snd (checkErrors lowerText category errors st)))"
    using Cons.prems(1)
  proof (rule checkErrors_entries)
    fix e
    assume "e \<in> set errors" "str_includes lowerText (fst e)"
    then show "P (category, \<lparr>score = errorScore (snd e), matches = [fst e], count = 1,
                          correction = Some (correct (snd e))\<rparr>)"
      using Cons.prems(2) [of c e] by (simp add: c)
  qed
  have rest: "\<And>c' e. c' \<in> set cs \<Longrightarrow> e \<in> set (snd c') \<Longrightarrow> str_includes lowerText (fst e) \<Longrightarrow>
           P (fst c', \<lparr>score = errorScore (snd e), matches = [fst e], count = 1,
                       correction = Some (correct (snd e))\<rparr>)"
    using Cons.prems(2) by simp
  show ?case
    by (simp add: c) (rule Cons.IH [OF here rest], simp_all)
qed

lemma checkErrors_distinct:
  "distinct (map fst (categories (snd st))) \<Longrightarrow>
   distinct (map fst (categories (snd (checkErrors lowerText category es st))))"
proof (induction es arbitrary: st)
  case Nil
  then show ?case by simp
next
  case (Cons e es)
  obtain errorPattern corr where e: "e = (errorPattern, corr)" by (cases e)
  show ?case
    using Cons.prems by (simp add: e Cons.IH assign_distinct)
qed

lemma checkFactualErrors_distinct:
  "distinct (map fst (categories (snd st))) \<Longrightarrow>
   distinct (map fst (categories (snd (checkFactualErrors lowerText table st))))"
proof (induction table arbitrary: st)
  case Nil
  then show ?case by simp
next
  case (Cons c cs)
  obtain category errors where c: "c = (category, errors)" by (cases c)
  show ?case
    using Cons.prems by (simp add: c Cons.IH checkErrors_distinct)
qed

text \<open>
  The categories after the factual-error check of the misinformation agent: distinct
  names, all of the factual-error table, each entry of the shape that the check writes.
\<close>

lemma factual_categories:
  "distinct (map fst (categories (snd (checkFactualErrors lowerText
       MisinformationAgent_factualErrors (False, initialAnalysis now v)))))"
  "list_all (factualEntry lowerText MisinformationAgent_factualErrors)
     (categories (snd (checkFactualErrors lowerText
       MisinformationAgent_factualErrors (False, initialAnalysis now v))))"
  "list_all (\<lambda>cat. map_of MisinformationAgent_fallbackPatterns (fst cat) = None)
     (categories (snd (checkFactualErrors lowerText
       MisinformationAgent_factualErrors (False, initialAnalysis now v))))"
proof -
  show "distinct (map fst (categories (snd (checkFactualErrors lowerText
       MisinformationAgent_factualErrors (False, initialAnalysis now v)))))"
    by (rule checkFactualErrors_distinct) (simp add: initialAnalysis_fields)
  show "list_all (factualEntry lowerText MisinformationAgent_factualErrors)
     (categories (snd (checkFactualErrors lowerText
       MisinformationAgent_factualErrors (False, initialAnalysis now v))))"
  proof (rule checkFactualErrors_entries)
    show "list_all (factualEntry lowerText MisinformationAgent_factualErrors)
        (categories (snd (False, initialAnalysis now v)))"
      by (simp add: initialAnalysis_fields)
  next
    fix c e
    assume "c \<in> set MisinformationAgent_factualErrors" "e \<in> set (snd c)"
      "str_includes lowerText (fst e)"
    then show "factualEntry lowerText MisinformationAgent_factualErrors
        (fst c, \<lparr>score = errorScore (snd e), matches = [fst e], count = 1,
                 correction = Some (correct (snd e))\<rparr>)"
      unfolding factualEntry_def list_ex_iff by force
  qed
  show "list_all (\<lambda>cat. map_of MisinformationAgent_fallbackPatterns (fst cat) = None)
     (categories (snd (checkFactualErrors lowerText
       MisinformationAgent_factualErrors (False, initialAnalysis now v))))"
  proof (rule checkFactualErrors_entries)
    show "list_all (\<lambda>cat. map_of MisinformationAgent_fallbackPatterns (fst cat) = None)
        (categories (snd (False, initialAnalysis now v)))"
      by (simp add: initialAnalysis_fields)
  next
    fix c e
    assume "c \<in> set MisinformationAgent_factualErrors"
    then have "fst c = ''geography'' \<or> fst c = ''science'' \<or> fst c = ''history''"
      by (auto simp: MisinformationAgent_factualErrors_def)
    then show "map_of MisinformationAgent_fallbackPatterns
        (fst (fst c, \<lparr>score = errorScore (snd e), matches = [fst e], count = 1,
                      correction = Some (correct (snd e))\<rparr>)) = None"
      by (auto simp: MisinformationAgent_fallbackPatterns_def)
  qed
qed

text \<open>The categories of a scan that starts from the initial analysis.\<close>

lemma plain_scan_entries:
  assumes "distinct (map fst ps)"
  shows "map_of (categories (scanPatterns inc ps ws (initialAnalysis now v))) c
           = (case map_of ps c of None \<Rightarrow> None | Some ks \<Rightarrow> tokenEntry inc ks ws)"
    and "list_all (countsTokenOccurrences inc ps ws)
           (categories (scanPatterns inc ps ws (initialAnalysis now v)))"
proof -
  show eq: "map_of (categories (scanPatterns inc ps ws (initialAnalysis now v))) c
           = (case map_of ps c of None \<Rightarrow> None | Some ks \<Rightarrow> tokenEntry inc ks ws)" for c
    by (simp add: scanPatterns_tokenEntry [OF assms] initialAnalysis_fields
        split: option.split)
  have "distinct (map fst (categories (scanPatterns inc ps ws (initialAnalysis now v))))"
    by (rule scanPatterns_distinct) (simp add: initialAnalysis_fields)
  then show "list_all (countsTokenOccurrences inc ps ws)
           (categories (scanPatterns inc ps ws (initialAnalysis now v)))"
    using eq by (rule entries_count_tokens)
qed

text \<open>
  The categories of the misinformation fallback: the keyword categories count token
  occurrences, the other entries are those of the factual-error check.
\<close>

lemma misinformation_entries:
  "map_of (categories (MisinformationAgent_fallbackAnalysis now (JStr s))) c
     = (case map_of MisinformationAgent_fallbackPatterns c of
          None \<Rightarrow> map_of (categories (snd (checkFactualErrors (toLowerCase s)
                    MisinformationAgent_factualErrors (False, initialAnalysis now (JStr s))))) c
        | Some ks \<Rightarrow> tokenEntry (2 / 10) ks (split_ws (toLowerCase s)))"
  "list_all (\<lambda>cat. countsTokenOccurrences (2 / 10) MisinformationAgent_fallbackPatterns
                      (split_ws (toLowerCase s)) cat
                  \<or> factualEntry (toLowerCase s) MisinformationAgent_factualErrors cat)
     (categories (MisinformationAgent_fallbackAnalysis now (JStr s)))"
proof -
  let ?f = "categories (snd (checkFactualErrors (toLowerCase s)
              MisinformationAgent_factualErrors (False, initialAnalysis now (JStr s))))"
  let ?ws = "split_ws (toLowerCase s)"
  let ?r = "categories (MisinformationAgent_fallbackAnalysis now (JStr s))"
  have d: "distinct (map fst MisinformationAgent_fallbackPatterns)"
    by (simp add: MisinformationAgent_fallbackPatterns_def)
  have df: "distinct (map fst ?f)" by (rule factual_categories(1))
  have shape: "list_all (factualEntry (toLowerCase s) MisinformationAgent_factualErrors) ?f"
    by (rule factual_categories(2))
  have apart: "list_all (\<lambda>cat. map_of MisinformationAgent_fallbackPatterns (fst cat) = None) ?f"
    by (rule factual_categories(3))
  have none: "map_of ?f c = None" if "map_of MisinformationAgent_fallbackPatterns c = Some ks"
    for c ks
  proof (cases "map_of ?f c")
    case None
    then show ?thesis .
  next
    case (Some m)
    then have "(c, m) \<in> set ?f" by (rule map_of_SomeD)
    with apart have "map_of MisinformationAgent_fallbackPatterns c = None"
      by (auto simp: list_all_iff)
    with that show ?thesis by simp
  qed
  show eq: "map_of ?r c
     = (case map_of MisinformationAgent_fallbackPatterns c of
          None \<Rightarrow> map_of ?f c
        | Some ks \<Rightarrow> tokenEntry (2 / 10) ks ?ws)" for c
    using none [of c]
    by (simp add: fallback_categories(4) scanPatterns_tokenEntry [OF d]
        split: option.split)
  have dr: "distinct (map fst ?r)"
    unfolding fallback_categories(4) using df by (rule scanPatterns_distinct)
  have "countsTokenOccurrences (2 / 10) MisinformationAgent_fallbackPatterns ?ws cat
      \<or> factualEntry (toLowerCase s) MisinformationAgent_factualErrors cat"
    if "cat \<in> set ?r" for cat
  proof -
    have m: "map_of ?r (fst cat) = Some (snd cat)"
      using dr that by (cases cat) simp
    show ?thesis
    proof (cases "map_of MisinformationAgent_fallbackPatterns (fst cat)")
      case None
      with m eq [of "fst cat"] have "map_of ?f (fst cat) = Some (snd cat)" by simp
      then have "(fst cat, snd cat) \<in> set ?f" by (rule map_of_SomeD)
      with shape show ?thesis by (simp add: list_all_iff)
    next
      case (Some ks)
      with m eq [of "fst cat"] show ?thesis
        by (simp add: countsTokenOccurrences_def)
    qed
  qed
  then show "list_all (\<lambda>cat. countsTokenOccurrences (2 / 10)
                      MisinformationAgent_fallbackPatterns ?ws cat
                  \<or> factualEntry (toLowerCase s) MisinformationAgent_factualErrors cat) ?r"
    by (simp add: list_all_iff)
qed

section \<open>The remote wrapper and the aggregator\<close>

lemma agent_analyze_fails:
  assumes "remoteCallFails apiKey net"
  shows "agent_analyze fallbackAnalysis names jsonParse apiKey net now v
       = (LocalRecord (fallbackAnalysis now v),
          if apiKey = None \<or> apiKey = Some [] then net else snd (fetch net))"
proof (cases "apiKey = None \<or> apiKey = Some []")
  case True
  then show ?thesis by (simp add: agent_analyze_def)
next
  case False
  with assms have "\<exists>e. replyContent (fst (fetch net)) = Inl e"
    by (auto simp: remoteCallFails_def replyContent_def split: fetch_outcome.splits)
  then obtain e where e: "replyContent (fst (fetch net)) = Inl e" by blast
  from False obtain k where k: "apiKey = Some k" "k \<noteq> []" by (cases apiKey) auto
  show ?thesis
    by (simp add: agent_analyze_def split_beta k e)
qed

lemma classifyPost_on_scoring_modules:
  assumes "getProp (if metadata p = JUndefined then JObj [] else metadata p) ''id'' = Inr vId"
  shows "\<exists>r. classifyPost conv (scoringModules b c m t adv) p = Inr r
       \<and> trustScore r = Math_max (Num 0) (Math_min (Num 1)
            (toFixed2 (Num (1 - (b * (2 / 10) + c * (2 / 10) + m * (3 / 10)
                                  + t * (15 / 100) + adv * (15 / 100))))))"
  using assms
  by (simp add: classifyPost_def scoringModules_def scoringModule_def callMethod_def
      bindE_def weightedScore_def getProp_def ToNumber_def num_times_def num_plus_def
      num_minus_def Let_def)

lemma classifyPost_misinformation_only:
  "(case classifyPost conv (scoringModules 0 0 1 0 0)
           \<lparr>title = JStr ''t'', content = JStr ''c'', metadata = JUndefined\<rparr> of
      Inr r \<Rightarrow> trustScore r = Num (7 / 10) \<and> flaggedCategories r = [''Misinformation'']
    | Inl e \<Rightarrow> False)"
  by code_simp

lemma wrapper_catch:
  assumes "r = (case body of Inr a \<Rightarrow> a | Inl e \<Rightarrow> errorAnalysis now v msg)"
  shows "(case body of
            Inr a \<Rightarrow> r = a
          | Inl e \<Rightarrow> severity r = ''error'' \<and> error r = Some msg)"
  using assms by (cases body) (simp_all add: errorAnalysis_fields)

lemma fallback_bounds:
  "0 \<le> aggregateScore (ToxicityAgent_fallbackAnalysis now v)
   \<and> aggregateScore (ToxicityAgent_fallbackAnalysis now v) \<le> 1"
  "0 \<le> aggregateScore (BiasAgent_fallbackAnalysis now v)
   \<and> aggregateScore (BiasAgent_fallbackAnalysis now v) \<le> 1"
  "0 \<le> aggregateScore (MisinformationAgent_fallbackAnalysis now v)
   \<and> aggregateScore (MisinformationAgent_fallbackAnalysis now v) \<le> 1"
  "0 \<le> aggregateScore (CoordinationAgent_fallbackAnalysis now v)
   \<and> aggregateScore (CoordinationAgent_fallbackAnalysis now v) \<le> 1"
  using callToLowerCase_cases [of v]
  by (auto simp: ToxicityAgent_facts BiasAgent_facts MisinformationAgent_facts
      CoordinationAgent_facts fallback_catch errorAnalysis_fields)

text \<open>
  What \<open>classifyPost\<close> reads from a record of one of the four agents: the record has no
  property \<open>score\<close> and no property \<open>flagged\<close>, so the weighted score is \<open>NaN\<close> and
  the flag reads as \<open>undefined\<close>.
\<close>

lemma agent_record_has_no_score:
  assumes "names = ToxicityAgent_names \<or> names = BiasAgent_names
           \<or> names = MisinformationAgent_names \<or> names = CoordinationAgent_names"
  shows "weightedScore conv (agentObject names a) weight = Inr NaN
       \<and> getProp (agentObject names a) ''flagged'' = Inr JUndefined"
  using assms
  by (cases "error a")
    (auto simp: weightedScore_def agentObject_def getProp_def bindE_def ToNumber_def
      num_times_def ToxicityAgent_names_def BiasAgent_names_def
      MisinformationAgent_names_def CoordinationAgent_names_def)

section \<open>The claims\<close>

text \<open>
  C1. For every content item \<open>classifyPost\<close> returns the trust score 1 minus the
  weighted sum of the five agent scores (weights 0.2, 0.2, 0.3, 0.15, 0.15), clamped to
  the unit interval and rounded to two decimals; 0.70 when only the misinformation score
  is 1. The code does not get there: on the modules of the repository the first call,
  \<open>biasAgent.analyze(content)\<close>, is a call on the exported class and throws, for every
  post, here for the post with the content \<open>studies show\<close>. (On modules of the shape
  the function is written for the formula holds, in exact arithmetic:
  \<open>classifyPost_on_scoring_modules\<close>, \<open>classifyPost_misinformation_only\<close>.)
\<close>

theorem classifyPost_throws_on_repository_agents:
  "classifyPost conv repositoryModules p
     = Inl (TypeError ''biasAgent.analyze is not a function'')
   \<and> classifyPost conv repositoryModules
       \<lparr>title = JStr ''Election news'', content = JStr ''studies show'',
        metadata = JObj [(''id'', JStr ''t3_1'')]\<rparr>
     = Inl (TypeError ''biasAgent.analyze is not a function'')"
  by (simp add: classifyPost_def repositoryModules_def classExport_def callMethod_def
      bindE_def)

text \<open>
  C2. Whatever the value of \<open>text\<close> (a string, empty or blank or not, or a value that
  is no string) each of the four fallback analyses returns a record, with an aggregate
  score in the unit interval; an exception of its body is turned into the record of
  the \<open>catch\<close> block, with the severity \<open>error\<close> and an error message. The score
  bound holds for every pattern table and every increment that is not negative.
\<close>

theorem fallbackAnalysis_never_throws_score_in_unit_interval:
  assumes "0 \<le> inc"
  shows "(0 \<le> aggregateScore (determineSeverity (overallScore
                 (scanPatterns inc patterns ws (initialAnalysis now v))))
          \<and> aggregateScore (determineSeverity (overallScore
                 (scanPatterns inc patterns ws (initialAnalysis now v)))) \<le> 1)
       \<and> (0 \<le> aggregateScore (ToxicityAgent_fallbackAnalysis now v)
          \<and> aggregateScore (ToxicityAgent_fallbackAnalysis now v) \<le> 1
          \<and> (case ToxicityAgent_fallbackBody now v of
                Inr a \<Rightarrow> ToxicityAgent_fallbackAnalysis now v = a
              | Inl e \<Rightarrow> severity (ToxicityAgent_fallbackAnalysis now v) = ''error''
                  \<and> error (ToxicityAgent_fallbackAnalysis now v)
                      = Some ''Both API and fallback analysis failed''))
       \<and> (0 \<le> aggregateScore (BiasAgent_fallbackAnalysis now v)
          \<and> aggregateScore (BiasAgent_fallbackAnalysis now v) \<le> 1
          \<and> (case BiasAgent_fallbackBody now v of
                Inr a \<Rightarrow> BiasAgent_fallbackAnalysis now v = a
              | Inl e \<Rightarrow> severity (BiasAgent_fallbackAnalysis now v) = ''error''
                  \<and> error (BiasAgent_fallbackAnalysis now v)
                      = Some ''Both API and fallback analysis failed''))
       \<and> (0 \<le> aggregateScore (MisinformationAgent_fallbackAnalysis now v)
          \<and> aggregateScore (MisinformationAgent_fallbackAnalysis now v) \<le> 1
          \<and> (case MisinformationAgent_fallbackBody now v of
                Inr a \<Rightarrow> MisinformationAgent_fallbackAnalysis now v = a
              | Inl e \<Rightarrow> severity (MisinformationAgent_fallbackAnalysis now v) = ''error''
                  \<and> error (MisinformationAgent_fallbackAnalysis now v)
                      = Some ''Both API and fallback analysis failed''))
       \<and> (0 \<le> aggregateScore (CoordinationAgent_fallbackAnalysis now v)
          \<and> aggregateScore (CoordinationAgent_fallbackAnalysis now v) \<le> 1
          \<and> (case CoordinationAgent_fallbackBody now v of
                Inr a \<Rightarrow> CoordinationAgent_fallbackAnalysis now v = a
              | Inl e \<Rightarrow> severity (CoordinationAgent_fallbackAnalysis now v) = ''error''
                  \<and> error (CoordinationAgent_fallbackAnalysis now v)
                      = Some ''Both API and fallback analysis failed''))"
proof -
  have general: "0 \<le> aggregateScore (determineSeverity (overallScore
                 (scanPatterns inc patterns ws (initialAnalysis now v))))
          \<and> aggregateScore (determineSeverity (overallScore
                 (scanPatterns inc patterns ws (initialAnalysis now v)))) \<le> 1"
    using pipeline_bounds [OF assms, of "initialAnalysis now v" patterns ws]
    by (simp add: initialAnalysis_fields)
  have tox: "(case ToxicityAgent_fallbackBody now v of
                Inr a \<Rightarrow> ToxicityAgent_fallbackAnalysis now v = a
              | Inl e \<Rightarrow> severity (ToxicityAgent_fallbackAnalysis now v) = ''error''
                  \<and> error (ToxicityAgent_fallbackAnalysis now v)
                      = Some ''Both API and fallback analysis failed'')"
    by (rule wrapper_catch) (simp add: ToxicityAgent_fallbackAnalysis_def)
  have bias: "(case BiasAgent_fallbackBody now v of
                Inr a \<Rightarrow> BiasAgent_fallbackAnalysis now v = a
              | Inl e \<Rightarrow> severity (BiasAgent_fallbackAnalysis now v) = ''error''
                  \<and> error (BiasAgent_fallbackAnalysis now v)
                      = Some ''Both API and fallback analysis failed'')"
    by (rule wrapper_catch) (simp add: BiasAgent_fallbackAnalysis_def)
  have mis: "(case MisinformationAgent_fallbackBody now v of
                Inr a \<Rightarrow> MisinformationAgent_fallbackAnalysis now v = a
              | Inl e \<Rightarrow> severity (MisinformationAgent_fallbackAnalysis now v) = ''error''
                  \<and> error (MisinformationAgent_fallbackAnalysis now v)
                      = Some ''Both API and fallback analysis failed'')"
    by (rule wrapper_catch) (simp add: MisinformationAgent_fallbackAnalysis_def)
  have coord: "(case CoordinationAgent_fallbackBody now v of
                Inr a \<Rightarrow> CoordinationAgent_fallbackAnalysis now v = a
              | Inl e \<Rightarrow> severity (CoordinationAgent_fallbackAnalysis now v) = ''error''
                  \<and> error (CoordinationAgent_fallbackAnalysis now v)
                      = Some ''Both API and fallback analysis failed'')"
    by (rule wrapper_catch) (simp add: CoordinationAgent_fallbackAnalysis_def)
  show ?thesis
    using general tox bias mis coord fallback_bounds [of now v] by blast
qed

theorem fallbackAnalysis_never_throws_witness:
  "(0 :: rat) \<le> 3 / 10
   \<and> aggregateScore (ToxicityAgent_fallbackAnalysis ''2025-01-01T00:00:00.000Z''
        (JArr [JStr ''you are'', JStr ''stupid''])) \<le> 1
   \<and> severity (ToxicityAgent_fallbackAnalysis ''2025-01-01T00:00:00.000Z''
        (JArr [JStr ''you are'', JStr ''stupid''])) = ''error''
   \<and> error (ToxicityAgent_fallbackAnalysis ''2025-01-01T00:00:00.000Z''
        (JArr [JStr ''you are'', JStr ''stupid'']))
       = Some ''Both API and fallback analysis failed''
   \<and> aggregateScore (ToxicityAgent_fallbackAnalysis ''2025-01-01T00:00:00.000Z''
        (JStr ''   '')) \<le> 1"
proof -
  have h: "(0 :: rat) \<le> 3 / 10" by simp
  have b: "ToxicityAgent_fallbackBody ''2025-01-01T00:00:00.000Z''
             (JArr [JStr ''you are'', JStr ''stupid''])
           = Inl (TypeError ''text.toLowerCase is not a function'')"
    by (simp add: ToxicityAgent_fallbackBody_def callToLowerCase_def)
  show ?thesis
    using h b
      fallbackAnalysis_never_throws_score_in_unit_interval [OF h,
        of ToxicityAgent_fallbackPatterns "[''stupid'']" "''2025-01-01T00:00:00.000Z''"
           "JArr [JStr ''you are'', JStr ''stupid'']"]
      fallbackAnalysis_never_throws_score_in_unit_interval [OF h,
        of ToxicityAgent_fallbackPatterns "[''stupid'']" "''2025-01-01T00:00:00.000Z''"
           "JStr ''   ''"]
    by simp
qed

text \<open>
  C3. The severity is a step function of the aggregate score, the same for the four
  agents: \<open>critical\<close> from 0.8, \<open>high\<close> from 0.6, \<open>medium\<close> from 0.4, \<open>low\<close> from
  0.2, \<open>none\<close> below. It is the function \<open>getSeverityLevel\<close>; 0.65 gives \<open>high\<close> and
  0.15 gives \<open>none\<close>. (The records in question are those of a text that is a string:
  the \<open>catch\<close> block does not compute a severity from a score.)
\<close>

theorem severity_is_step_function_of_score:
  "severity (ToxicityAgent_fallbackAnalysis now (JStr s))
     = getSeverityLevel (aggregateScore (ToxicityAgent_fallbackAnalysis now (JStr s)))
   \<and> severity (BiasAgent_fallbackAnalysis now (JStr s))
     = getSeverityLevel (aggregateScore (BiasAgent_fallbackAnalysis now (JStr s)))
   \<and> severity (MisinformationAgent_fallbackAnalysis now (JStr s))
     = getSeverityLevel (aggregateScore (MisinformationAgent_fallbackAnalysis now (JStr s)))
   \<and> severity (CoordinationAgent_fallbackAnalysis now (JStr s))
     = getSeverityLevel (aggregateScore (CoordinationAgent_fallbackAnalysis now (JStr s)))
   \<and> getSeverityLevel sc
     = (if sc \<ge> 8 / 10 then ''critical'' else if sc \<ge> 6 / 10 then ''high''
        else if sc \<ge> 4 / 10 then ''medium'' else if sc \<ge> 2 / 10 then ''low''
        else ''none'')
   \<and> getSeverityLevel (65 / 100) = ''high''
   \<and> getSeverityLevel (15 / 100) = ''none''"
proof -
  have "getSeverityLevel (65 / 100) = ''high''" "getSeverityLevel (15 / 100) = ''none''"
    by (simp_all add: getSeverityLevel_def)
  moreover have "getSeverityLevel sc
     = (if sc \<ge> 8 / 10 then ''critical'' else if sc \<ge> 6 / 10 then ''high''
        else if sc \<ge> 4 / 10 then ''medium'' else if sc \<ge> 2 / 10 then ''low''
        else ''none'')"
    by (simp add: getSeverityLevel_def)
  ultimately show ?thesis
    using ToxicityAgent_facts [of now s] BiasAgent_facts [of now s]
      MisinformationAgent_facts [of now s] CoordinationAgent_facts [of now s]
    by blast
qed

text \<open>
  C4. A text whose lower-case form contains a phrase of the factual-error table is
  flagged, gets an aggregate score of at least the score bound to the phrase, and gets
  the correction as recommendation in place of the generic one. The code sets the score
  to the maximum with the bound score (line 455) and then overwrites it with the mean of
  the category scores (line 492): on \<open>Paris is in Spain conspiracy\<close> the category
  \<open>geography\<close> has the score 0.9, the category \<open>conspiracy_theories\<close> 0.2, and the
  aggregate score is 0.55, under the 0.9 bound to the phrase. The flag and the
  recommendation are as claimed (\<open>factual_error_flag_and_correction\<close>), and so is the
  example \<open>Paris is in Spain\<close>.
\<close>

theorem factual_error_score_overwritten_by_mean:
  "str_includes (toLowerCase ''Paris is in Spain conspiracy'') ''paris is in spain''
   \<and> aggregateScore (MisinformationAgent_fallbackAnalysis now
        (JStr ''Paris is in Spain conspiracy'')) = 11 / 20
   \<and> map (\<lambda>cat. (fst cat, score (snd cat)))
         (categories (MisinformationAgent_fallbackAnalysis now
            (JStr ''Paris is in Spain conspiracy'')))
       = [(''geography'', 9 / 10), (''conspiracy_theories'', 2 / 10)]
   \<and> flagged (MisinformationAgent_fallbackAnalysis now
        (JStr ''Paris is in Spain conspiracy''))
   \<and> severity (MisinformationAgent_fallbackAnalysis now
        (JStr ''Paris is in Spain conspiracy'')) = ''medium''
   \<and> recommendations (MisinformationAgent_fallbackAnalysis now
        (JStr ''Paris is in Spain conspiracy''))
       = [''Factual error detected: Paris is in France'']
   \<and> aggregateScore (MisinformationAgent_fallbackAnalysis now (JStr ''Paris is in Spain''))
       = 9 / 10
   \<and> flagged (MisinformationAgent_fallbackAnalysis now (JStr ''Paris is in Spain''))
   \<and> recommendations (MisinformationAgent_fallbackAnalysis now (JStr ''Paris is in Spain''))
       = [''Factual error detected: Paris is in France'']"
  by code_simp

text \<open>
  C5. On \<open>you are stupid\<close> the toxicity fallback records the one token \<open>stupid\<close> in
  the category \<open>insults\<close> and no other category, with the category score 0.3, the
  aggregate score 0.3, the severity \<open>low\<close> and the flag set.
\<close>

theorem you_are_stupid_is_low_toxicity:
  "ToxicityAgent_fallbackAnalysis now (JStr ''you are stupid'') =
     \<lparr>sourceText = JStr ''you are stupid'', error = None, flagged = True,
      aggregateScore = 3 / 10, severity = ''low'',
      categories =
        [(''insults'',
          \<lparr>score = 3 / 10, matches = [''stupid''], count = 1, correction = None\<rparr>)],
      flaggedTokens = [''stupid''],
      recommendations =
        [''Toxic content detected. Consider moderation.'',
         ''Personal insults detected. Review for community guidelines.''],
      model = Some ''fallback-pattern-matcher'', timestamp = now\<rparr>"
  by code_simp

text \<open>
  C6. When the remote call fails (no credential, a rejected request, a status outside
  200 to 299) \<open>analyze\<close> returns the record of the fallback analysis of the same text,
  and issues no second request: without a credential the network is untouched, otherwise
  exactly the first outcome is consumed, whatever the outcomes after it.
\<close>

theorem analyze_falls_back_without_retry:
  assumes "remoteCallFails apiKey net"
  shows "ToxicityAgent_analyze jsonParse apiKey net now v
           = (LocalRecord (ToxicityAgent_fallbackAnalysis now v),
              if apiKey = None \<or> apiKey = Some [] then net else snd (fetch net))
       \<and> BiasAgent_analyze jsonParse apiKey net now v
           = (LocalRecord (BiasAgent_fallbackAnalysis now v),
              if apiKey = None \<or> apiKey = Some [] then net else snd (fetch net))
       \<and> MisinformationAgent_analyze jsonParse apiKey net now v
           = (LocalRecord (MisinformationAgent_fallbackAnalysis now v),
              if apiKey = None \<or> apiKey = Some [] then net else snd (fetch net))
       \<and> CoordinationAgent_analyze jsonParse apiKey net now v
           = (LocalRecord (CoordinationAgent_fallbackAnalysis now v),
              if apiKey = None \<or> apiKey = Some [] then net else snd (fetch net))
       \<and> length net - length (snd (ToxicityAgent_analyze jsonParse apiKey net now v)) \<le> 1"
proof -
  have one: "length net - length (snd (fetch net)) \<le> 1"
    by (cases net) (simp_all add: fetch_def)
  show ?thesis
    unfolding ToxicityAgent_analyze_def BiasAgent_analyze_def
      MisinformationAgent_analyze_def CoordinationAgent_analyze_def
    using one by (simp add: agent_analyze_fails [OF assms])
qed

theorem analyze_falls_back_without_retry_witness:
  \<open>remoteCallFails (Some ''key'')
     [FetchResponse 503 JsonRejected,
      FetchResponse 200 (JsonValue (JObj [(''choices'',
        JArr [JObj [(''message'', JObj [(''content'', JStr ''{"isToxic": false}'')])]])]))]
   \<and> ToxicityAgent_analyze Map.empty (Some ''key'')
       [FetchResponse 503 JsonRejected,
        FetchResponse 200 (JsonValue (JObj [(''choices'',
          JArr [JObj [(''message'', JObj [(''content'', JStr ''{"isToxic": false}'')])]])]))]
       ''2025-01-01T00:00:00.000Z'' (JStr ''you are stupid'')
     = (LocalRecord (ToxicityAgent_fallbackAnalysis ''2025-01-01T00:00:00.000Z''
                       (JStr ''you are stupid'')),
        [FetchResponse 200 (JsonValue (JObj [(''choices'',
          JArr [JObj [(''message'', JObj [(''content'', JStr ''{"isToxic": false}'')])]])]))])\<close>
proof -
  let ?net = \<open>[FetchResponse 503 JsonRejected,
      FetchResponse 200 (JsonValue (JObj [(''choices'',
        JArr [JObj [(''message'', JObj [(''content'', JStr ''{"isToxic": false}'')])]])]))]\<close>
  have h: "remoteCallFails (Some ''key'') ?net"
    by (simp add: remoteCallFails_def fetch_def response_ok_def)
  show ?thesis
    using h analyze_falls_back_without_retry [OF h, of Map.empty
        "''2025-01-01T00:00:00.000Z''" "JStr ''you are stupid''"]
    by (simp add: fetch_def)
qed

text \<open>
  C7. Every record of an agent satisfies \<open>flagged = (severity \<noteq> none)\<close>, on the
  fallback path, the remote-parse path and the error path. The error path breaks it by
  design: the \<open>catch\<close> blocks return the flag \<open>false\<close> with the severity \<open>error\<close>
  (a text that is an array, as a repeated query parameter gives, reaches the one of
  \<open>fallbackAnalysis\<close>; a reply without braces the one of \<open>parseAIResponse\<close>). The
  remote-parse path copies the flag and the severity of the reply, each with its own
  default, so a reply with \<open>isToxic\<close> alone gives the flag \<open>true\<close> with the severity
  \<open>none\<close>.
\<close>

theorem flag_severity_invariant_counterexample:
  \<open>\<not> flagMatchesSeverity ToxicityAgent_names
       (fst (ToxicityAgent_analyze Map.empty None [] ''2025-01-01T00:00:00.000Z''
               (JArr [JStr ''you are'', JStr ''stupid''])))
   \<and> \<not> flagMatchesSeverity ToxicityAgent_names
       (parseAIResponse ToxicityAgent_names Map.empty ''2025-01-01T00:00:00.000Z''
          (JStr ''I cannot help with that.'') (JStr ''hello''))
   \<and> \<not> flagMatchesSeverity ToxicityAgent_names
       (parseAIResponse ToxicityAgent_names
          [''{"isToxic": true}'' \<mapsto> JObj [(''isToxic'', JBool True)]]
          ''2025-01-01T00:00:00.000Z'' (JStr ''{"isToxic": true}'') (JStr ''hello''))\<close>
  by code_simp

text \<open>
  C7, amended. Every record that a fallback analysis returns for a text that is a string
  (the fallback path where no exception occurs) satisfies
  \<open>flagged = (severity \<noteq> none)\<close>, for each of the four agents.
\<close>

theorem fallback_flag_matches_severity:
  "flagMatchesSeverity ToxicityAgent_names
     (LocalRecord (ToxicityAgent_fallbackAnalysis now (JStr s)))
   \<and> flagMatchesSeverity BiasAgent_names
     (LocalRecord (BiasAgent_fallbackAnalysis now (JStr s)))
   \<and> flagMatchesSeverity MisinformationAgent_names
     (LocalRecord (MisinformationAgent_fallbackAnalysis now (JStr s)))
   \<and> flagMatchesSeverity CoordinationAgent_names
     (LocalRecord (CoordinationAgent_fallbackAnalysis now (JStr s)))"
  using ToxicityAgent_facts [of now s] BiasAgent_facts [of now s]
    MisinformationAgent_facts [of now s] CoordinationAgent_facts [of now s]
  by (simp add: flagMatchesSeverity_def outputFlag_def outputSeverity_def)

text \<open>
  C8. \<open>calculateOverallRisk\<close> depends on the four counts only and returns the most
  severe bucket with a non-zero count (critical before high before medium before low),
  \<open>none\<close> when all four are zero; the summary with one high and two medium issues
  gives \<open>high\<close>.
\<close>

theorem calculateOverallRisk_highest_bucket:
  "calculateOverallRisk s = overallRisk_spec s
   \<and> calculateOverallRisk (s\<lparr>totalIssues := t\<rparr>) = calculateOverallRisk s
   \<and> calculateOverallRisk
        \<lparr>totalIssues = t, criticalIssues = 0, highIssues = 1, mediumIssues = 2, lowIssues = 0\<rparr>
      = ''high''"
  by (simp add: calculateOverallRisk_def overallRisk_spec_def overallRisk_buckets_def)

text \<open>
  C9. Take a pattern table, a category of it and a keyword of that category that some
  token of the text contains. Appending occurrences of the keyword to the text, each
  after a space, does not lower the score of the category (nor its count): the category
  has an entry before and after, and the later score is at least the earlier one. The
  increment is not negative, as the four increments are; the entries are those of the
  scan, which the fallback analyses return unchanged (\<open>fallback_categories\<close>).
\<close>

theorem repeated_keyword_never_lowers_category_score:
  assumes "0 \<le> inc"
    and "distinct (map fst patterns)"
    and "map_of patterns category = Some keywords"
    and "keyword \<in> set keywords"
    and "list_ex (\<lambda>word. str_includes word keyword) (split_ws (toLowerCase text))"
  shows "\<exists>e e'.
      map_of (categories (scanPatterns inc patterns (split_ws (toLowerCase text)) a)) category
        = Some e
    \<and> map_of (categories (scanPatterns inc patterns
          (split_ws (toLowerCase (text @ concat (replicate n (CHR '' '' # keyword))))) a'))
          category
        = Some e'
    \<and> score e \<le> score e' \<and> score e' \<le> 1 \<and> count e \<le> count e'"
proof -
  let ?hit = "\<lambda>word. list_ex (\<lambda>keyword. str_includes word keyword) keywords"
  let ?ws = "split_ws (toLowerCase text)"
  let ?ws' = "split_ws (toLowerCase (text @ concat (replicate n (CHR '' '' # keyword))))"
  from assms(5) obtain w where w: "w \<in> set ?ws" "str_includes w keyword"
    by (auto simp: list_ex_iff)
  with assms(4) have "?hit w" by (auto simp: list_ex_iff)
  with w(1) have "w \<in> set (filter ?hit ?ws)" by simp
  then have "filter ?hit ?ws \<noteq> []" by (metis empty_iff list.set(1))
  then have pos: "0 < length (filter ?hit ?ws)" by simp
  have le: "length (filter ?hit ?ws) \<le> length (filter ?hit ?ws')"
    by (rule match_count_append)
  have pos': "0 < length (filter ?hit ?ws')" using pos le by (rule less_le_trans)
  have "of_nat (length (filter ?hit ?ws)) * inc \<le> of_nat (length (filter ?hit ?ws')) * inc"
    using le assms(1) by (simp add: mult_right_mono)
  then have sc: "min (of_nat (length (filter ?hit ?ws)) * inc) 1
      \<le> min (of_nat (length (filter ?hit ?ws')) * inc) 1"
    by (simp add: min_le_iff_disj)
  show ?thesis
    using pos pos' le sc
    by (simp add: scanPatterns_lookup [OF assms(2)] assms(3) scanWords_filter)
qed

theorem repeated_keyword_never_lowers_category_score_witness:
  "map (\<lambda>cat. (fst cat, score (snd cat)))
     (categories (ToxicityAgent_fallbackAnalysis ''2025-01-01T00:00:00.000Z''
        (JStr ''you are stupid'')))
     = [(''insults'', 3 / 10)]
   \<and> (\<exists>e e'.
        map_of (categories (ToxicityAgent_fallbackAnalysis ''2025-01-01T00:00:00.000Z''
                  (JStr ''you are stupid''))) ''insults'' = Some e
      \<and> map_of (categories (ToxicityAgent_fallbackAnalysis ''2025-01-02T00:00:00.000Z''
                  (JStr (''you are stupid''
                           @ concat (replicate 2 (CHR '' '' # ''stupid'')))))) ''insults''
          = Some e'
      \<and> score e \<le> score e' \<and> score e' \<le> 1 \<and> count e \<le> count e')"
proof -
  have h1: "(0 :: rat) \<le> 3 / 10" by simp
  have h2: "distinct (map fst ToxicityAgent_fallbackPatterns)"
    by (simp add: ToxicityAgent_fallbackPatterns_def)
  have h3: "map_of ToxicityAgent_fallbackPatterns ''insults''
      = Some [''stupid'', ''idiot'', ''dumb'', ''fool'', ''moron'', ''imbecile'',
              ''retard'', ''cretin'']"
    by (simp add: ToxicityAgent_fallbackPatterns_def)
  have h4: "''stupid'' \<in> set [''stupid'', ''idiot'', ''dumb'', ''fool'', ''moron'',
      ''imbecile'', ''retard'', ''cretin'']"
    by simp
  have h5: "list_ex (\<lambda>word. str_includes word ''stupid'')
      (split_ws (toLowerCase ''you are stupid''))"
    by code_simp
  have ex: "map (\<lambda>cat. (fst cat, score (snd cat)))
     (categories (ToxicityAgent_fallbackAnalysis ''2025-01-01T00:00:00.000Z''
        (JStr ''you are stupid'')))
     = [(''insults'', 3 / 10)]"
    by code_simp
  show ?thesis
    using ex repeated_keyword_never_lowers_category_score [OF h1 h2 h3 h4 h5,
        of "initialAnalysis ''2025-01-01T00:00:00.000Z'' (JStr ''you are stupid'')"
           2
           "initialAnalysis ''2025-01-02T00:00:00.000Z''
              (JStr (''you are stupid'' @ concat (replicate 2 (CHR '' '' # ''stupid''))))"]
    by (simp only: fallback_categories)
qed

text \<open>
  C10. In every fallback scorer each entry of the categories has the matching token
  occurrences as its matches and their number as its count, a token counting once
  however many keywords of the category it contains. The entries that the
  factual-error check of the misinformation agent writes are of another kind, by
  design: on \<open>paris is in spain and paris is in spain\<close> the entry \<open>geography\<close> has
  the phrase as its only match and the count 1, though the phrase is no token of the
  text, no token contains it, and it occurs twice.
\<close>

theorem factual_error_entry_counts_no_token_counterexample:
  "categories (MisinformationAgent_fallbackAnalysis ''2025-01-01T00:00:00.000Z''
      (JStr ''paris is in spain and paris is in spain''))
     = [(''geography'',
         \<lparr>score = 9 / 10, matches = [''paris is in spain''], count = 1,
          correction = Some ''Paris is in France''\<rparr>)]
   \<and> split_ws (toLowerCase ''paris is in spain and paris is in spain'')
     = [''paris'', ''is'', ''in'', ''spain'', ''and'', ''paris'', ''is'', ''in'', ''spain'']
   \<and> map_of MisinformationAgent_triggers ''geography''
     = Some [''paris is in spain'', ''london is in france'', ''tokyo is in china'',
             ''moscow is in ukraine'', ''berlin is in austria'']
   \<and> tokenEntry (2 / 10)
       [''paris is in spain'', ''london is in france'', ''tokyo is in china'',
        ''moscow is in ukraine'', ''berlin is in austria'']
       (split_ws (toLowerCase ''paris is in spain and paris is in spain'')) = None
   \<and> \<not> list_all
         (countsTokenOccurrences (2 / 10) MisinformationAgent_triggers
            (split_ws (toLowerCase ''paris is in spain and paris is in spain'')))
         (categories (MisinformationAgent_fallbackAnalysis ''2025-01-01T00:00:00.000Z''
            (JStr ''paris is in spain and paris is in spain'')))"
  by code_simp

text \<open>
  C10, amended. For every text that is a string, every entry of the categories of the
  toxicity, the bias and the coordination fallback, and every entry of a keyword
  category of the misinformation fallback, counts token occurrences: its matches are
  the tokens that contain at least one keyword of the category, in order and each as
  often as it occurs, its count is their number, and its score is one increment for
  each of them, capped at 1, however many keywords a token contains; a keyword
  category has an entry exactly when some token matches. The other entries of the
  misinformation fallback are those of the factual-error check: the score bound to a
  phrase that occurs in the text, the phrase as the only match and the count 1. The
  token \<open>stupididiot\<close> contains two keywords of \<open>insults\<close> and counts once.
\<close>

theorem category_entries_count_token_occurrences:
  "scanWords inc keywords ws ([], 0)
     = (filter (\<lambda>word. list_ex (\<lambda>keyword. str_includes word keyword) keywords) ws,
        of_nat (length (filter
                  (\<lambda>word. list_ex (\<lambda>keyword. str_includes word keyword) keywords) ws)) * inc)
   \<and> list_all (countsTokenOccurrences (3 / 10) ToxicityAgent_fallbackPatterns
                 (split_ws (toLowerCase s)))
        (categories (ToxicityAgent_fallbackAnalysis now (JStr s)))
   \<and> map_of (categories (ToxicityAgent_fallbackAnalysis now (JStr s))) c
       = (case map_of ToxicityAgent_fallbackPatterns c of
            None \<Rightarrow> None
          | Some ks \<Rightarrow> tokenEntry (3 / 10) ks (split_ws (toLowerCase s)))
   \<and> list_all (countsTokenOccurrences (2 / 10) BiasAgent_fallbackPatterns
                 (split_ws (toLowerCase s)))
        (categories (BiasAgent_fallbackAnalysis now (JStr s)))
   \<and> map_of (categories (BiasAgent_fallbackAnalysis now (JStr s))) c
       = (case map_of BiasAgent_fallbackPatterns c of
            None \<Rightarrow> None
          | Some ks \<Rightarrow> tokenEntry (2 / 10) ks (split_ws (toLowerCase s)))
   \<and> list_all (countsTokenOccurrences (15 / 100) CoordinationAgent_fallbackPatterns
                 (split_ws (toLowerCase s)))
        (categories (CoordinationAgent_fallbackAnalysis now (JStr s)))
   \<and> map_of (categories (CoordinationAgent_fallbackAnalysis now (JStr s))) c
       = (case map_of CoordinationAgent_fallbackPatterns c of
            None \<Rightarrow> None
          | Some ks \<Rightarrow> tokenEntry (15 / 100) ks (split_ws (toLowerCase s)))
   \<and> list_all (\<lambda>cat. countsTokenOccurrences (2 / 10) MisinformationAgent_fallbackPatterns
                        (split_ws (toLowerCase s)) cat
                    \<or> factualEntry (toLowerCase s) MisinformationAgent_factualErrors cat)
        (categories (MisinformationAgent_fallbackAnalysis now (JStr s)))
   \<and> map_of (categories (MisinformationAgent_fallbackAnalysis now (JStr s))) c
       = (case map_of MisinformationAgent_fallbackPatterns c of
            None \<Rightarrow> map_of (categories (snd (checkFactualErrors (toLowerCase s)
                      MisinformationAgent_factualErrors
                      (False, initialAnalysis now (JStr s))))) c
          | Some ks \<Rightarrow> tokenEntry (2 / 10) ks (split_ws (toLowerCase s)))
   \<and> length (filter (\<lambda>keyword. str_includes ''stupididiot'' keyword)
               [''stupid'', ''idiot'', ''dumb'', ''fool'', ''moron'', ''imbecile'',
                ''retard'', ''cretin'']) = 2
   \<and> categories (ToxicityAgent_fallbackAnalysis now (JStr ''stupididiot stupid''))
       = [(''insults'',
           \<lparr>score = 6 / 10, matches = [''stupididiot'', ''stupid''], count = 2,
            correction = None\<rparr>)]
   \<and> categories (CoordinationAgent_fallbackAnalysis now (JStr ''botscript bot''))
       = [(''bot_like_behavior'',
           \<lparr>score = 30 / 100, matches = [''botscript'', ''bot''], count = 2,
            correction = None\<rparr>)]"
proof -
  have dt: "distinct (map fst ToxicityAgent_fallbackPatterns)"
    by (simp add: ToxicityAgent_fallbackPatterns_def)
  have db: "distinct (map fst BiasAgent_fallbackPatterns)"
    by (simp add: BiasAgent_fallbackPatterns_def)
  have dc: "distinct (map fst CoordinationAgent_fallbackPatterns)"
    by (simp add: CoordinationAgent_fallbackPatterns_def)
  have scan: "scanWords inc keywords ws ([], 0)
     = (filter (\<lambda>word. list_ex (\<lambda>keyword. str_includes word keyword) keywords) ws,
        of_nat (length (filter
                  (\<lambda>word. list_ex (\<lambda>keyword. str_includes word keyword) keywords) ws)) * inc)"
    by (simp add: scanWords_filter)
  have e1: "length (filter (\<lambda>keyword. str_includes ''stupididiot'' keyword)
               [''stupid'', ''idiot'', ''dumb'', ''fool'', ''moron'', ''imbecile'',
                ''retard'', ''cretin'']) = 2"
    by code_simp
  have e2: "categories (ToxicityAgent_fallbackAnalysis now (JStr ''stupididiot stupid''))
       = [(''insults'',
           \<lparr>score = 6 / 10, matches = [''stupididiot'', ''stupid''], count = 2,
            correction = None\<rparr>)]"
    by code_simp
  have e3: "categories (CoordinationAgent_fallbackAnalysis now (JStr ''botscript bot''))
       = [(''bot_like_behavior'',
           \<lparr>score = 30 / 100, matches = [''botscript'', ''bot''], count = 2,
            correction = None\<rparr>)]"
    by code_simp
  note t = plain_scan_entries [OF dt, where inc = "3 / 10" and ws = "split_ws (toLowerCase s)"
      and now = now and v = "JStr s"]
  note b = plain_scan_entries [OF db, where inc = "2 / 10" and ws = "split_ws (toLowerCase s)"
      and now = now and v = "JStr s"]
  note co = plain_scan_entries [OF dc, where inc = "15 / 100"
      and ws = "split_ws (toLowerCase s)" and now = now and v = "JStr s"]
  have T1: "list_all (countsTokenOccurrences (3 / 10) ToxicityAgent_fallbackPatterns
                 (split_ws (toLowerCase s)))
        (categories (ToxicityAgent_fallbackAnalysis now (JStr s)))"
    unfolding fallback_categories(1) by (rule t(2))
  have T2: "map_of (categories (ToxicityAgent_fallbackAnalysis now (JStr s))) c
       = (case map_of ToxicityAgent_fallbackPatterns c of
            None \<Rightarrow> None
          | Some ks \<Rightarrow> tokenEntry (3 / 10) ks (split_ws (toLowerCase s)))"
    unfolding fallback_categories(1) by (rule t(1))
  have B1: "list_all (countsTokenOccurrences (2 / 10) BiasAgent_fallbackPatterns
                 (split_ws (toLowerCase s)))
        (categories (BiasAgent_fallbackAnalysis now (JStr s)))"
    unfolding fallback_categories(2) by (rule b(2))
  have B2: "map_of (categories (BiasAgent_fallbackAnalysis now (JStr s))) c
       = (case map_of BiasAgent_fallbackPatterns c of
            None \<Rightarrow> None
          | Some ks \<Rightarrow> tokenEntry (2 / 10) ks (split_ws (toLowerCase s)))"
    unfolding fallback_categories(2) by (rule b(1))
  have C1: "list_all (countsTokenOccurrences (15 / 100) CoordinationAgent_fallbackPatterns
                 (split_ws (toLowerCase s)))
        (categories (CoordinationAgent_fallbackAnalysis now (JStr s)))"
    unfolding fallback_categories(3) by (rule co(2))
  have C2: "map_of (categories (CoordinationAgent_fallbackAnalysis now (JStr s))) c
       = (case map_of CoordinationAgent_fallbackPatterns c of
            None \<Rightarrow> None
          | Some ks \<Rightarrow> tokenEntry (15 / 100) ks (split_ws (toLowerCase s)))"
    unfolding fallback_categories(3) by (rule co(1))
  show ?thesis
    using scan T1 T2 B1 B2 C1 C2 misinformation_entries(2) [where now = now and s = s]
      misinformation_entries(1) [where now = now and s = s and c = c] e1 e2 e3
    by (intro conjI) assumption+
qed

end
